theory Spec2Isabelle
  imports Complex_Main "HOL-Library.Sublist"
begin

section \<open>The workload sequencer of the Determined harness\<close>

text \<open>
  A shallow embedding of \<^verbatim>\<open>harness/determined/layers/_workload_sequencer.py\<close>.
  Python integers are \<open>int\<close>, \<^verbatim>\<open>Optional[int]\<close> is \<open>int option\<close>, an exception is a
  value of \<open>exc\<close>. The searcher metric, a Python float that the sequencer only passes on
  and compares, is a \<open>real\<close>.
\<close>

subsection \<open>Exceptions\<close>

text \<open>
  \<open>ShouldExit\<close> is the class of the source. \<open>CheckFailedError\<close> is what the checks of
  \<^verbatim>\<open>determined.common.check\<close> raise. \<open>Suspended\<close> is not a Python exception: it is the
  outcome of a generator that has yielded and is never resumed by its consumer.
\<close>

datatype exc = ShouldExit | AssertionError | ValueError | CheckFailedError | KeyError | Suspended

subsection \<open>\<^verbatim>\<open>SavableState\<close>\<close>

record SavableState =
  trial_id :: int
  last_ckpt :: int
  latest_batch :: int
  total_records :: "int option"
  step_id :: int
  last_val :: int

text \<open>The constructor of \<^verbatim>\<open>SavableState\<close>; an absent keyword argument takes its default.\<close>

definition SavableState_init ::
  "int \<Rightarrow> int option \<Rightarrow> int option \<Rightarrow> int option option \<Rightarrow> int option \<Rightarrow> int option \<Rightarrow> SavableState" where
  "SavableState_init tid lc lb tr sid lv =
     \<lparr>trial_id = tid,
      last_ckpt = (case lc of None \<Rightarrow> 0 | Some v \<Rightarrow> v),
      latest_batch = (case lb of None \<Rightarrow> 0 | Some v \<Rightarrow> v),
      total_records = (case tr of None \<Rightarrow> Some 0 | Some v \<Rightarrow> v),
      step_id = (case sid of None \<Rightarrow> 0 | Some v \<Rightarrow> v),
      last_val = (case lv of None \<Rightarrow> 0 | Some v \<Rightarrow> v)\<rparr>"

text \<open>
  The dictionary that \<^verbatim>\<open>get_state\<close> returns and \<^verbatim>\<open>load_state\<close> reads: each of the six
  keys is absent (\<open>None\<close>) or holds a value of the type the constructor declares for it.
  \<open>snap_total_records = Some None\<close> is the key present with the value \<^verbatim>\<open>None\<close>.
\<close>

record snapshot =
  snap_trial_id :: "int option"
  snap_last_ckpt :: "int option"
  snap_latest_batch :: "int option"
  snap_total_records :: "int option option"
  snap_step_id :: "int option"
  snap_last_val :: "int option"

subsection \<open>The sequencer object\<close>

text \<open>
  The attributes of \<^verbatim>\<open>self\<close> that are assigned in \<^verbatim>\<open>__init__\<close> and never again; the
  mutable \<^verbatim>\<open>self.state\<close> lives in the world below. \<open>records_per_epoch = None\<close> is a
  value that is not an \<^verbatim>\<open>int\<close>. \<open>scheduling_unit\<close>, \<open>searcher_metric\<close> and
  \<open>smaller_is_better\<close> are the entries of \<^verbatim>\<open>env.experiment_config\<close> that the methods read.
  \<open>as_batches\<close> reads the first two attributes only, which \<^verbatim>\<open>__init__\<close> assigns before
  it calls \<open>as_batches\<close>.
\<close>

record converter =
  records_per_epoch :: "int option"
  global_batch_size :: int

record sequencer = converter +
  self_trial_id :: int
  exp_id :: int
  val_from_previous_run :: "int option"
  want_initial_val :: bool
  ckpt_policy :: string
  min_val_period_batches :: int
  min_ckpt_period_batches :: int
  scheduling_unit :: int
  searcher_metric :: string
  smaller_is_better :: bool

subsection \<open>\<^verbatim>\<open>as_batches\<close>\<close>

text \<open>
  Modelled from the spec: \<^verbatim>\<open>check.gt\<close> and \<^verbatim>\<open>check.is_instance\<close> of
  \<^verbatim>\<open>determined.common.check\<close> are not part of the source file; a failed check is fatal
  at the point of conversion.
\<close>

definition check_gt :: "int \<Rightarrow> int \<Rightarrow> exc + unit" where
  "check_gt a b = (if a > b then Inr () else Inl CheckFailedError)"

definition as_batches ::
  "'a converter_scheme \<Rightarrow> int option \<Rightarrow> int option \<Rightarrow> int option \<Rightarrow> exc + int" where
  "as_batches self batches records epochs =
     (if length (filter (\<lambda>x. x \<noteq> None) [batches, records, epochs]) \<noteq> 1 then Inl ValueError
      else case batches of
        Some b \<Rightarrow> Inr b
      | None \<Rightarrow>
         (case records of
            Some r \<Rightarrow>
              (case check_gt (global_batch_size self) 0 of
                 Inl e \<Rightarrow> Inl e
               | Inr _ \<Rightarrow> Inr (max (r div global_batch_size self) 1))
          | None \<Rightarrow>
             (case epochs of
                Some ep \<Rightarrow>
                  (case records_per_epoch self of
                     None \<Rightarrow> Inl CheckFailedError
                   | Some rpe \<Rightarrow>
                       (case check_gt (global_batch_size self) 0 of
                          Inl e \<Rightarrow> Inl e
                        | Inr _ \<Rightarrow> Inr (max ((ep * rpe) div global_batch_size self) 1)))
              | None \<Rightarrow> Inl ValueError)))"

subsection \<open>\<^verbatim>\<open>__init__\<close>\<close>

text \<open>\<^verbatim>\<open>sys.maxsize\<close> of a 64-bit CPython.\<close>

definition sys_maxsize :: int where
  "sys_maxsize = 2 ^ 63 - 1"

text \<open>
  A length of the experiment configuration (\<^verbatim>\<open>get_min_validation_period()\<close>,
  \<^verbatim>\<open>get_min_checkpoint_period()\<close>): a dictionary passed as keyword arguments to
  \<open>as_batches\<close>, each of the three keys absent or an integer.
\<close>

record length_spec =
  spec_batches :: "int option"
  spec_records :: "int option"
  spec_epochs :: "int option"

text \<open>What \<^verbatim>\<open>__init__\<close> reads from \<^verbatim>\<open>env\<close> and from \<^verbatim>\<open>training.get_last_validation()\<close>.\<close>

record env =
  det_trial_id :: int
  det_experiment_id :: int
  last_validation :: "int option"
  perform_initial_validation :: bool
  checkpoint_policy :: string
  env_records_per_epoch :: "int option"
  env_global_batch_size :: int
  min_validation_period :: length_spec
  min_checkpoint_period :: length_spec
  env_scheduling_unit :: int
  env_searcher_metric :: string
  env_smaller_is_better :: bool

definition period_or_maxsize :: "int \<Rightarrow> int" where
  "period_or_maxsize p = (if p < 1 then sys_maxsize else p)"

definition sequencer_init :: "env \<Rightarrow> exc + sequencer \<times> SavableState" where
  "sequencer_init e =
     (let conv = \<lparr>records_per_epoch = env_records_per_epoch e,
                  global_batch_size = env_global_batch_size e\<rparr>;
          vp = min_validation_period e;
          cp = min_checkpoint_period e
      in case as_batches conv (spec_batches vp) (spec_records vp) (spec_epochs vp) of
           Inl x \<Rightarrow> Inl x
         | Inr v \<Rightarrow>
            (case as_batches conv (spec_batches cp) (spec_records cp) (spec_epochs cp) of
               Inl x \<Rightarrow> Inl x
             | Inr c \<Rightarrow>
                Inr (\<lparr>records_per_epoch = env_records_per_epoch e,
                      global_batch_size = env_global_batch_size e,
                      self_trial_id = det_trial_id e,
                      exp_id = det_experiment_id e,
                      val_from_previous_run = last_validation e,
                      want_initial_val = perform_initial_validation e,
                      ckpt_policy = checkpoint_policy e,
                      min_val_period_batches = period_or_maxsize v,
                      min_ckpt_period_batches = period_or_maxsize c,
                      scheduling_unit = env_scheduling_unit e,
                      searcher_metric = env_searcher_metric e,
                      smaller_is_better = env_smaller_is_better e\<rparr>,
                     SavableState_init (det_trial_id e) None None None None None)))"

subsection \<open>\<^verbatim>\<open>get_state\<close> and \<^verbatim>\<open>load_state\<close>\<close>

definition get_state :: "SavableState \<Rightarrow> snapshot" where
  "get_state s =
     \<lparr>snap_trial_id = Some (trial_id s),
      snap_last_ckpt = Some (last_ckpt s),
      snap_latest_batch = Some (latest_batch s),
      snap_total_records = Some (total_records s),
      snap_step_id = Some (step_id s),
      snap_last_val = Some (last_val s)\<rparr>"

text \<open>\<open>load_state self snap cur\<close> is \<^verbatim>\<open>self.state\<close> after the call, \<open>cur\<close> being it before.\<close>

definition load_state :: "sequencer \<Rightarrow> snapshot \<Rightarrow> SavableState \<Rightarrow> SavableState" where
  "load_state self snap cur =
     (if snap_trial_id snap \<noteq> Some (self_trial_id self) then cur
      else
        let s = SavableState_init (self_trial_id self) (snap_last_ckpt snap)
                  (snap_latest_batch snap) (snap_total_records snap) (snap_step_id snap)
                  (snap_last_val snap)
        in if Some (latest_batch s) = val_from_previous_run self
           then s\<lparr>last_val := latest_batch s\<rparr> else s)"

subsection \<open>The yield/resume handshake\<close>

datatype Kind = RUN_STEP | COMPUTE_VALIDATION_METRICS | CHECKPOINT_MODEL

record Workload =
  kind :: Kind
  e_id :: int
  t_id :: int
  s_id :: int
  num_batches :: int
  total_batches_processed :: int

text \<open>
  A \<^verbatim>\<open>workload.Metrics\<close> dictionary, reduced to the entries that the sequencer branches
  on. Each key is absent (\<open>None\<close>) or present: \<^verbatim>\<open>exited_reason\<close>, and \<^verbatim>\<open>metrics\<close> with
  its entries \<^verbatim>\<open>num_inputs\<close> (read from a training result) and \<^verbatim>\<open>validation_metrics\<close>
  (read from a validation result). For a checkpoint result \<^verbatim>\<open>metrics\<close> is the storage
  metadata, whose attributes are only handed on to the reporting call, as are the other
  payloads, which are left out.
\<close>

record metrics_dict =
  num_inputs :: "int option"
  validation_metrics :: "(string \<rightharpoonup> real) option"

record Metrics =
  exited_reason :: "string option"
  metrics :: "metrics_dict option"

datatype Response = Skipped | Result Metrics

text \<open>
  The closure \<^verbatim>\<open>respond\<close>: the first argument is the variable \<^verbatim>\<open>out\<close> before the call,
  the result is \<^verbatim>\<open>out\<close> after it, or the failed assertion.
\<close>

fun respond :: "Metrics option \<Rightarrow> Response \<Rightarrow> exc + Metrics option" where
  "respond out Skipped = Inl AssertionError"
| "respond out (Result r) = Inr (Some r)"

text \<open>
  The calls of \<^verbatim>\<open>respond\<close> that the consumer makes while the generator is suspended at
  its \<^verbatim>\<open>yield\<close>, in order.
\<close>

fun respond_calls :: "Metrics option \<Rightarrow> Response list \<Rightarrow> exc + Metrics option" where
  "respond_calls out [] = Inr out"
| "respond_calls out (r # rs) =
     (case respond out r of Inl e \<Rightarrow> Inl e | Inr out' \<Rightarrow> respond_calls out' rs)"

text \<open>
  \<^verbatim>\<open>yield_and_await_response\<close> from the \<^verbatim>\<open>yield\<close> on: \<^verbatim>\<open>out\<close> starts as \<^verbatim>\<open>None\<close>, the
  consumer makes its calls, the generator is resumed and returns \<^verbatim>\<open>out\<close>.
\<close>

definition await_response :: "Response list \<Rightarrow> exc + Metrics" where
  "await_response calls =
     (case respond_calls None calls of
        Inl e \<Rightarrow> Inl e
      | Inr None \<Rightarrow> Inl AssertionError
      | Inr (Some r) \<Rightarrow> Inr r)"

subsection \<open>The world of the generator\<close>

datatype Unit = BATCHES | RECORDS | EPOCHS

text \<open>
  Modelled from the spec: \<^verbatim>\<open>_generic.SearcherOp\<close> is not part of the source file. An
  operation is \<open>{unit, length, completed}\<close>; the flag \<^verbatim>\<open>_completed\<close> of the one active
  operation is \<open>op_completed\<close> of the world, \<open>False\<close> when the feed hands the operation out.
\<close>

record SearcherOp =
  op_unit :: Unit
  op_length :: int

text \<open>
  What the sequencer does to the outside, in order: a workload yielded (with
  \<^verbatim>\<open>self.state\<close> as \<^verbatim>\<open>get_state\<close> would see it at that moment), the response with
  which the generator was resumed, \<^verbatim>\<open>training.report_early_exit\<close>, the feed handing out
  an operation, and \<^verbatim>\<open>op.complete\<close>.
\<close>

datatype event =
    Yield Workload SavableState
  | Resume Kind Metrics
  | Early_exit
  | Next_op SearcherOp
  | Complete SearcherOp real

text \<open>
  \<open>state\<close> is \<^verbatim>\<open>self.state\<close>. The other fields are the answers that the collaborators
  will give: \<open>inbox\<close> holds, for each coming \<^verbatim>\<open>yield\<close>, the calls of the response function
  that the consumer makes before it resumes the generator (an empty \<open>inbox\<close>: the consumer
  stops iterating); \<open>polls\<close> the coming answers of \<^verbatim>\<open>preemption.should_preempt\<close> and
  \<open>bests\<close> those of \<^verbatim>\<open>training.get_experiment_best_validation\<close> (once used up, the
  answers are \<open>False\<close> and \<open>None\<close>).
\<close>

record world =
  state :: SavableState
  inbox :: "Response list list"
  polls :: "bool list"
  bests :: "real option list"
  op_completed :: bool
  trace :: "event list"

datatype 'a result = Return 'a world | Raise exc world

fun world_of :: "'a result \<Rightarrow> world" where
  "world_of (Return a w) = w"
| "world_of (Raise e w) = w"

definition yield_and_await_response :: "Workload \<Rightarrow> world \<Rightarrow> Metrics result" where
  "yield_and_await_response wkld w =
     (let w1 = w\<lparr>trace := trace w @ [Yield wkld (state w)]\<rparr>
      in case inbox w1 of
           [] \<Rightarrow> Raise Suspended w1
         | calls # rest \<Rightarrow>
            (case await_response calls of
               Inl e \<Rightarrow> Raise e (w1\<lparr>inbox := rest\<rparr>)
             | Inr out \<Rightarrow>
                Return out (w1\<lparr>inbox := rest, trace := trace w1 @ [Resume (kind wkld) out]\<rparr>)))"

definition check_for_preemption :: "world \<Rightarrow> unit result" where
  "check_for_preemption w =
     (case polls w of
        [] \<Rightarrow> Return () w
      | p # ps \<Rightarrow> if p then Raise ShouldExit (w\<lparr>polls := ps\<rparr>) else Return () (w\<lparr>polls := ps\<rparr>))"

definition report_early_exit :: "world \<Rightarrow> world" where
  "report_early_exit w = w\<lparr>trace := trace w @ [Early_exit]\<rparr>"

definition get_experiment_best_validation :: "world \<Rightarrow> real option \<times> world" where
  "get_experiment_best_validation w =
     (case bests w of [] \<Rightarrow> (None, w) | b # bs \<Rightarrow> (b, w\<lparr>bests := bs\<rparr>))"

text \<open>
  Modelled from the spec: \<^verbatim>\<open>SearcherOp.complete\<close> is not part of the source file; it
  reports the metric and turns \<open>completed\<close> to true.
\<close>

definition complete :: "SearcherOp \<Rightarrow> real \<Rightarrow> world \<Rightarrow> world" where
  "complete op m w = w\<lparr>op_completed := True, trace := trace w @ [Complete op m]\<rparr>"

subsection \<open>The due computations\<close>

definition batches_until_val :: "sequencer \<Rightarrow> SavableState \<Rightarrow> int" where
  "batches_until_val self s = last_val s + min_val_period_batches self - latest_batch s"

definition batches_until_ckpt :: "sequencer \<Rightarrow> SavableState \<Rightarrow> int" where
  "batches_until_ckpt self s = last_ckpt s + min_ckpt_period_batches self - latest_batch s"

definition batches_until_op_complete :: "sequencer \<Rightarrow> SearcherOp \<Rightarrow> SavableState \<Rightarrow> exc + int" where
  "batches_until_op_complete self op s =
     (case as_batches self
             (if op_unit op = BATCHES then Some (op_length op) else None)
             (if op_unit op = RECORDS then Some (op_length op) else None)
             (if op_unit op = EPOCHS then Some (op_length op) else None) of
        Inl e \<Rightarrow> Inl e
      | Inr n \<Rightarrow> Inr (n - latest_batch s))"

definition checkpoint_is_current :: "SavableState \<Rightarrow> bool" where
  "checkpoint_is_current s = (last_ckpt s = latest_batch s)"

definition validation_is_current :: "SavableState \<Rightarrow> bool" where
  "validation_is_current s = (last_val s = latest_batch s)"

subsection \<open>\<^verbatim>\<open>train\<close>, \<^verbatim>\<open>validate\<close> and \<^verbatim>\<open>checkpoint\<close>\<close>

text \<open>
  The progress report at the end of \<^verbatim>\<open>train\<close>: the report itself goes to the searcher
  and is not recorded; for an operation in epochs it calls \<open>as_batches\<close>, which can raise.
\<close>

definition report_progress :: "sequencer \<Rightarrow> SearcherOp \<Rightarrow> world \<Rightarrow> unit result" where
  "report_progress self op w =
     (case op_unit op of
        BATCHES \<Rightarrow> Return () w
      | RECORDS \<Rightarrow> Return () w
      | EPOCHS \<Rightarrow>
         (case as_batches self None None (Some (op_length op)) of
            Inl e \<Rightarrow> Raise e w
          | Inr _ \<Rightarrow> Return () w))"

text \<open>\<^verbatim>\<open>response.get("metrics", {}).get("num_inputs")\<close>\<close>

definition response_num_inputs :: "Metrics \<Rightarrow> int option" where
  "response_num_inputs response =
     (case metrics response of None \<Rightarrow> None | Some d \<Rightarrow> num_inputs d)"

text \<open>
  \<^verbatim>\<open>response["metrics"]["validation_metrics"][searcher_metric_name]\<close>, as \<open>validate\<close>
  reads it: each of the three lookups raises \<open>KeyError\<close> for an absent key.
\<close>

definition response_searcher_metric :: "sequencer \<Rightarrow> Metrics \<Rightarrow> exc + real" where
  "response_searcher_metric self response =
     (case metrics response of
        None \<Rightarrow> Inl KeyError
      | Some d \<Rightarrow>
         (case validation_metrics d of
            None \<Rightarrow> Inl KeyError
          | Some vm \<Rightarrow>
             (case vm (searcher_metric self) of
                None \<Rightarrow> Inl KeyError
              | Some metric \<Rightarrow> Inr metric)))"

definition train :: "sequencer \<Rightarrow> int \<Rightarrow> SearcherOp \<Rightarrow> world \<Rightarrow> unit result" where
  "train self n op w =
     (case yield_and_await_response
             \<lparr>kind = RUN_STEP, e_id = exp_id self, t_id = self_trial_id self,
              s_id = step_id (state w) + 1, num_batches = n,
              total_batches_processed = latest_batch (state w)\<rparr> w of
        Raise e w1 \<Rightarrow> Raise e w1
      | Return response w1 \<Rightarrow>
         if exited_reason response = Some ''INVALID_HP''
         then Raise ShouldExit (report_early_exit w1)
         else
           (case report_progress self op
                   (w1\<lparr>state := (state w1)
                      \<lparr>latest_batch := latest_batch (state w1) + n,
                       total_records :=
                         (case response_num_inputs response of
                            None \<Rightarrow> None
                          | Some k \<Rightarrow>
                             (case total_records (state w1) of
                                None \<Rightarrow> None
                              | Some t \<Rightarrow> Some (t + k))),
                       step_id := step_id (state w1) + 1\<rparr>\<rparr>) of
              Raise e w2 \<Rightarrow> Raise e w2
            | Return _ w2 \<Rightarrow>
               if exited_reason response = Some ''USER_CANCELED''
               then Raise ShouldExit w2
               else check_for_preemption w2))"

definition is_best_validation :: "sequencer \<Rightarrow> real \<Rightarrow> real option \<Rightarrow> bool" where
  "is_best_validation self now before =
     (case before of
        None \<Rightarrow> True
      | Some b \<Rightarrow> if smaller_is_better self then now < b else now > b)"

definition checkpoint :: "sequencer \<Rightarrow> bool \<Rightarrow> world \<Rightarrow> unit result" where
  "checkpoint self already_exiting w =
     (let w0 = w\<lparr>state := (state w)\<lparr>last_ckpt := latest_batch (state w)\<rparr>\<rparr>
      in case yield_and_await_response
                \<lparr>kind = CHECKPOINT_MODEL, e_id = exp_id self, t_id = self_trial_id self,
                 s_id = step_id (state w0), num_batches = 0,
                 total_batches_processed = latest_batch (state w0)\<rparr> w0 of
           Raise e w1 \<Rightarrow> Raise e w1
         | Return response w1 \<Rightarrow>
            (case metrics response of
               None \<Rightarrow> Raise KeyError w1
             | Some storage_metadata \<Rightarrow>
                if already_exiting then Return () w1
                else
                  (let w2 = (if exited_reason response = Some ''INVALID_HP''
                             then report_early_exit w1 else w1)
                   in if exited_reason response \<noteq> None then Raise ShouldExit w2
                      else check_for_preemption w2)))"

text \<open>
  In \<^verbatim>\<open>validate\<close> the local \<^verbatim>\<open>best_validation_before\<close> is bound only under the policy
  \<^verbatim>\<open>"best"\<close> with a checkpoint that is not current, and read only under the same
  condition; where it is unbound the model carries \<open>None\<close>.
\<close>

definition validate :: "sequencer \<Rightarrow> SearcherOp option \<Rightarrow> world \<Rightarrow> unit result" where
  "validate self op w =
     (case yield_and_await_response
             \<lparr>kind = COMPUTE_VALIDATION_METRICS, e_id = exp_id self, t_id = self_trial_id self,
              s_id = step_id (state w), num_batches = 0,
              total_batches_processed = latest_batch (state w)\<rparr> w of
        Raise e w1 \<Rightarrow> Raise e w1
      | Return response w1 \<Rightarrow>
         if exited_reason response = Some ''INVALID_HP''
         then Raise ShouldExit (report_early_exit w1)
         else
           (case response_searcher_metric self response of
              Inl e \<Rightarrow> Raise e w1
            | Inr metric \<Rightarrow>
               (case (case op of
                        None \<Rightarrow> Return () w1
                      | Some o' \<Rightarrow>
                         (case batches_until_op_complete self o' (state w1) of
                            Inl e \<Rightarrow> Raise e w1
                          | Inr b \<Rightarrow> Return () (if b < 1 then complete o' metric w1 else w1))) of
                  Raise e w2 \<Rightarrow> Raise e w2
                | Return _ w2 \<Rightarrow>
                   (let (best_validation_before, w3) =
                          (if ckpt_policy self = ''best'' \<and> \<not> checkpoint_is_current (state w2)
                           then get_experiment_best_validation w2 else (None, w2));
                        w4 = w3\<lparr>state := (state w3)\<lparr>last_val := latest_batch (state w3)\<rparr>\<rparr>
                    in if exited_reason response = Some ''USER_CANCELED''
                       then Raise ShouldExit w4
                       else
                         (case (if \<not> checkpoint_is_current (state w4)
                                   \<and> (ckpt_policy self = ''all''
                                      \<or> (ckpt_policy self = ''best''
                                          \<and> is_best_validation self metric best_validation_before))
                                then checkpoint self False w4 else Return () w4) of
                            Raise e w5 \<Rightarrow> Raise e w5
                          | Return _ w5 \<Rightarrow> check_for_preemption w5)))))"

subsection \<open>\<^verbatim>\<open>__iter__\<close>\<close>

text \<open>One pass through the body of the \<^verbatim>\<open>while\<close> loop.\<close>

definition loop_body :: "sequencer \<Rightarrow> SearcherOp \<Rightarrow> world \<Rightarrow> unit result" where
  "loop_body self op w =
     (case (if batches_until_val self (state w) < 1
            then validate self (Some op) w else Return () w) of
        Raise e w1 \<Rightarrow> Raise e w1
      | Return _ w1 \<Rightarrow>
         (case (if batches_until_ckpt self (state w1) < 1
                then checkpoint self False w1 else Return () w1) of
            Raise e w2 \<Rightarrow> Raise e w2
          | Return _ w2 \<Rightarrow>
             (case batches_until_op_complete self op (state w2) of
                Inl e \<Rightarrow> Raise e w2
              | Inr b \<Rightarrow>
                 train self
                   (max 1 (min (batches_until_ckpt self (state w2))
                            (min (batches_until_val self (state w2))
                              (min b (scheduling_unit self)))))
                   op w2)))"

subsection \<open>Reading a trace\<close>

text \<open>The events that a step from \<open>w\<close> to \<open>w'\<close> added to the trace.\<close>

definition new_events :: "world \<Rightarrow> world \<Rightarrow> event list" where
  "new_events w w' = drop (length (trace w)) (trace w')"

fun kinds_of :: "event list \<Rightarrow> Kind list" where
  "kinds_of [] = []"
| "kinds_of (Yield wk s # evs) = kind wk # kinds_of evs"
| "kinds_of (e # evs) = kinds_of evs"

fun op_events :: "event list \<Rightarrow> event list" where
  "op_events [] = []"
| "op_events (Next_op op # evs) = Next_op op # op_events evs"
| "op_events (Complete op m # evs) = Complete op m # op_events evs"
| "op_events (e # evs) = op_events evs"

fun train_event :: "event \<Rightarrow> bool" where
  "train_event (Yield wk s) = (kind wk = RUN_STEP)"
| "train_event (Resume k r) = (k = RUN_STEP)"
| "train_event e = False"

definition checkpoint_workload :: "sequencer \<Rightarrow> SavableState \<Rightarrow> Workload" where
  "checkpoint_workload self s =
     \<lparr>kind = CHECKPOINT_MODEL, e_id = exp_id self, t_id = self_trial_id self,
      s_id = step_id s, num_batches = 0, total_batches_processed = latest_batch s\<rparr>"

definition train_workload :: "sequencer \<Rightarrow> int \<Rightarrow> SavableState \<Rightarrow> Workload" where
  "train_workload self n s =
     \<lparr>kind = RUN_STEP, e_id = exp_id self, t_id = self_trial_id self,
      s_id = step_id s + 1, num_batches = n, total_batches_processed = latest_batch s\<rparr>"

fun invalid_hp_result :: "event \<Rightarrow> bool" where
  "invalid_hp_result (Resume k r) = (k = RUN_STEP \<and> exited_reason r = Some ''INVALID_HP'')"
| "invalid_hp_result e = False"

definition validate_workload :: "sequencer \<Rightarrow> SavableState \<Rightarrow> Workload" where
  "validate_workload self s =
     \<lparr>kind = COMPUTE_VALIDATION_METRICS, e_id = exp_id self, t_id = self_trial_id self,
      s_id = step_id s, num_batches = 0, total_batches_processed = latest_batch s\<rparr>"

definition validate_complete :: "sequencer \<Rightarrow> SearcherOp option \<Rightarrow> real \<Rightarrow> world \<Rightarrow> unit result" where
  "validate_complete self op metric w1 =
     (case op of
        None \<Rightarrow> Return () w1
      | Some o' \<Rightarrow>
         (case batches_until_op_complete self o' (state w1) of
            Inl e \<Rightarrow> Raise e w1
          | Inr b \<Rightarrow> Return () (if b < 1 then complete o' metric w1 else w1)))"

definition validate_checkpoint :: "sequencer \<Rightarrow> real \<Rightarrow> real option \<Rightarrow> world \<Rightarrow> unit result" where
  "validate_checkpoint self metric before w4 =
     (case (if \<not> checkpoint_is_current (state w4)
               \<and> (ckpt_policy self = ''all''
                  \<or> (ckpt_policy self = ''best'' \<and> is_best_validation self metric before))
            then checkpoint self False w4 else Return () w4) of
        Raise e w5 \<Rightarrow> Raise e w5
      | Return _ w5 \<Rightarrow> check_for_preemption w5)"

definition validate_record :: "sequencer \<Rightarrow> real \<Rightarrow> Metrics \<Rightarrow> world \<Rightarrow> unit result" where
  "validate_record self metric response w2 =
     (let (best_validation_before, w3) =
            (if ckpt_policy self = ''best'' \<and> \<not> checkpoint_is_current (state w2)
             then get_experiment_best_validation w2 else (None, w2));
          w4 = w3\<lparr>state := (state w3)\<lparr>last_val := latest_batch (state w3)\<rparr>\<rparr>
      in if exited_reason response = Some ''USER_CANCELED''
         then Raise ShouldExit w4
         else validate_checkpoint self metric best_validation_before w4)"

text \<open>What a call of \<open>validate\<close> in state \<open>s\<close> leaves behind: state \<open>s'\<close>, events \<open>evs\<close>.\<close>

definition validate_post ::
  "sequencer \<Rightarrow> SearcherOp option \<Rightarrow> SavableState \<Rightarrow> bool \<Rightarrow> SavableState \<Rightarrow> bool
   \<Rightarrow> event list \<Rightarrow> bool" where
  "validate_post self op s c s' c' evs \<longleftrightarrow>
     (\<forall>e\<in>set evs. \<not> train_event e)
     \<and> latest_batch s' = latest_batch s \<and> trial_id s' = trial_id s
     \<and> total_records s' = total_records s \<and> step_id s' = step_id s
     \<and> (last_val s' = last_val s \<or> last_val s' = latest_batch s)
     \<and> (kinds_of evs = [] \<and> last_ckpt s' = last_ckpt s
        \<or> kinds_of evs = [CHECKPOINT_MODEL] \<and> last_ckpt s \<noteq> latest_batch s
          \<and> last_ckpt s' = latest_batch s)
     \<and> (op_events evs = [] \<and> c' = c
        \<or> (\<exists>o' b m r. op = Some o' \<and> batches_until_op_complete self o' s = Inr b \<and> b < 1
              \<and> op_events evs = [Complete o' m] \<and> c'
              \<and> Resume COMPUTE_VALIDATION_METRICS r \<in> set evs
              \<and> response_searcher_metric self r = Inr m))"

subsection \<open>What the steps do to the world\<close>

lemma respond_calls_exc:
  "respond_calls out calls = Inl e \<Longrightarrow> e = AssertionError"
  by (induction calls arbitrary: out) (auto split: sum.splits elim: respond.elims)

lemma await_response_exc:
  "await_response calls = Inl e \<Longrightarrow> e = AssertionError"
  by (auto simp add: await_response_def split: sum.splits option.splits dest: respond_calls_exc)

lemma yield_Return:
  "yield_and_await_response wk w = Return r w1 \<Longrightarrow>
   state w1 = state w \<and> op_completed w1 = op_completed w
   \<and> trace w1 = trace w @ [Yield wk (state w), Resume (kind wk) r]"
  by (auto simp add: yield_and_await_response_def Let_def split: list.splits sum.splits)

lemma yield_Raise:
  "yield_and_await_response wk w = Raise e w1 \<Longrightarrow>
   state w1 = state w \<and> op_completed w1 = op_completed w
   \<and> trace w1 = trace w @ [Yield wk (state w)] \<and> e \<noteq> ShouldExit"
  by (auto simp add: yield_and_await_response_def Let_def split: list.splits sum.splits
      dest: await_response_exc)

lemma preempt_Return:
  "check_for_preemption w = Return x w1 \<Longrightarrow>
   state w1 = state w \<and> op_completed w1 = op_completed w \<and> trace w1 = trace w"
  by (auto simp add: check_for_preemption_def split: list.splits if_splits)

lemma preempt_Raise:
  "check_for_preemption w = Raise e w1 \<Longrightarrow>
   state w1 = state w \<and> op_completed w1 = op_completed w \<and> trace w1 = trace w \<and> e = ShouldExit"
  by (auto simp add: check_for_preemption_def split: list.splits if_splits)

lemma preempt_world [simp]:
  "state (world_of (check_for_preemption w)) = state w"
  "op_completed (world_of (check_for_preemption w)) = op_completed w"
  "trace (world_of (check_for_preemption w)) = trace w"
  by (simp_all add: check_for_preemption_def split: list.splits)

lemma as_batches_exc:
  "as_batches self b r e = Inl x \<Longrightarrow> x \<noteq> ShouldExit"
  by (auto simp add: as_batches_def check_gt_def split: if_splits option.splits sum.splits)

lemma report_progress_Return:
  "report_progress self op w = Return x w1 \<Longrightarrow> w1 = w"
  by (auto simp add: report_progress_def split: Unit.splits sum.splits)

lemma report_progress_Raise:
  "report_progress self op w = Raise e w1 \<Longrightarrow> w1 = w \<and> e \<noteq> ShouldExit"
  by (auto simp add: report_progress_def split: Unit.splits sum.splits dest: as_batches_exc)

lemma best_validation_world:
  "get_experiment_best_validation w = (b, w1) \<Longrightarrow>
   state w1 = state w \<and> op_completed w1 = op_completed w \<and> trace w1 = trace w"
  by (auto simp add: get_experiment_best_validation_def split: list.splits)

lemmas prim_dests = yield_Return yield_Raise preempt_Return preempt_Raise report_progress_Return
  report_progress_Raise best_validation_world

lemma kinds_of_append [simp]: "kinds_of (xs @ ys) = kinds_of xs @ kinds_of ys"
  by (induction xs rule: kinds_of.induct) simp_all

lemma op_events_append [simp]: "op_events (xs @ ys) = op_events xs @ op_events ys"
  by (induction xs rule: op_events.induct) simp_all

lemma checkpoint_effect:
  "\<exists>evs. trace (world_of (checkpoint self ae w))
           = trace w @ Yield (checkpoint_workload self (state w))
                         ((state w)\<lparr>last_ckpt := latest_batch (state w)\<rparr>) # evs
         \<and> kinds_of evs = [] \<and> op_events evs = [] \<and> (\<forall>e\<in>set evs. \<not> train_event e)"
  by (auto simp add: checkpoint_def checkpoint_workload_def Let_def report_early_exit_def
      split: result.splits if_splits option.splits dest!: prim_dests)

lemma checkpoint_state:
  "state (world_of (checkpoint self ae w)) = (state w)\<lparr>last_ckpt := latest_batch (state w)\<rparr>"
  by (auto simp add: checkpoint_def Let_def report_early_exit_def split: result.splits if_splits option.splits
      dest!: prim_dests)

lemma checkpoint_op_completed:
  "op_completed (world_of (checkpoint self ae w)) = op_completed w"
  by (auto simp add: checkpoint_def Let_def report_early_exit_def split: result.splits if_splits option.splits
      dest!: prim_dests)

lemma checkpoint_exiting:
  "checkpoint self True w = Raise e w' \<Longrightarrow> e \<noteq> ShouldExit"
  by (auto simp add: checkpoint_def Let_def split: result.splits if_splits option.splits dest!: prim_dests)

lemma train_effect:
  "\<exists>evs. trace (world_of (train self n op w))
           = trace w @ Yield (train_workload self n (state w)) (state w) # evs
         \<and> kinds_of evs = [] \<and> op_events evs = []
         \<and> (evs = []
            \<or> (\<exists>r. evs = [Resume RUN_STEP r] \<and> exited_reason r \<noteq> Some ''INVALID_HP'')
            \<or> (\<exists>r. evs = [Resume RUN_STEP r, Early_exit] \<and> exited_reason r = Some ''INVALID_HP''
                  \<and> train self n op w = Raise ShouldExit (world_of (train self n op w))
                  \<and> state (world_of (train self n op w)) = state w))"
  by (auto simp add: train_def train_workload_def report_early_exit_def
      split: result.splits if_splits dest!: prim_dests)

lemma train_op_completed:
  "op_completed (world_of (train self n op w)) = op_completed w"
  by (auto simp add: train_def report_early_exit_def split: result.splits if_splits
      dest!: prim_dests)

lemma train_state:
  "state (world_of (train self n op w)) = state w
   \<or> (latest_batch (state (world_of (train self n op w))) = latest_batch (state w) + n
      \<and> last_ckpt (state (world_of (train self n op w))) = last_ckpt (state w)
      \<and> last_val (state (world_of (train self n op w))) = last_val (state w)
      \<and> trial_id (state (world_of (train self n op w))) = trial_id (state w)
      \<and> step_id (state (world_of (train self n op w))) = step_id (state w) + 1)"
  by (auto simp add: train_def report_early_exit_def split: result.splits if_splits
      dest!: prim_dests)

lemma train_Return_state:
  assumes "train self n op w = Return x w'"
  shows "latest_batch (state w') = latest_batch (state w) + n
       \<and> last_ckpt (state w') = last_ckpt (state w)
       \<and> last_val (state w') = last_val (state w)"
  using assms
  by (auto simp add: train_def split: result.splits if_splits dest!: prim_dests)

lemma validate_unfold:
  "validate self op w =
     (case yield_and_await_response (validate_workload self (state w)) w of
        Raise e w1 \<Rightarrow> Raise e w1
      | Return response w1 \<Rightarrow>
         if exited_reason response = Some ''INVALID_HP''
         then Raise ShouldExit (report_early_exit w1)
         else
           (case response_searcher_metric self response of
              Inl e \<Rightarrow> Raise e w1
            | Inr metric \<Rightarrow>
               (case validate_complete self op metric w1 of
                  Raise e w2 \<Rightarrow> Raise e w2
                | Return _ w2 \<Rightarrow> validate_record self metric response w2)))"
  unfolding validate_def validate_workload_def validate_complete_def validate_record_def
    validate_checkpoint_def
  by (rule refl)

lemma validate_checkpoint_effect:
  "\<exists>evs. trace (world_of (validate_checkpoint self metric before w)) = trace w @ evs
      \<and> op_events evs = [] \<and> (\<forall>e\<in>set evs. \<not> train_event e)
      \<and> op_completed (world_of (validate_checkpoint self metric before w)) = op_completed w
      \<and> (kinds_of evs = []
            \<and> state (world_of (validate_checkpoint self metric before w)) = state w
          \<or> kinds_of evs = [CHECKPOINT_MODEL] \<and> last_ckpt (state w) \<noteq> latest_batch (state w)
            \<and> state (world_of (validate_checkpoint self metric before w))
                = (state w)\<lparr>last_ckpt := latest_batch (state w)\<rparr>)"
proof (cases "\<not> checkpoint_is_current (state w)
               \<and> (ckpt_policy self = ''all''
                  \<or> (ckpt_policy self = ''best'' \<and> is_best_validation self metric before))")
  case False
  then have "validate_checkpoint self metric before w = check_for_preemption w"
    by (auto simp add: validate_checkpoint_def)
  then show ?thesis by simp
next
  case True
  then have nc: "last_ckpt (state w) \<noteq> latest_batch (state w)"
    by (simp add: checkpoint_is_current_def)
  from True have eq: "validate_checkpoint self metric before w =
      (case checkpoint self False w of Raise e w5 \<Rightarrow> Raise e w5
       | Return _ w5 \<Rightarrow> check_for_preemption w5)"
    by (auto simp add: validate_checkpoint_def)
  have w: "trace (world_of (validate_checkpoint self metric before w))
             = trace (world_of (checkpoint self False w))
         \<and> state (world_of (validate_checkpoint self metric before w))
             = state (world_of (checkpoint self False w))
         \<and> op_completed (world_of (validate_checkpoint self metric before w))
             = op_completed (world_of (checkpoint self False w))"
    unfolding eq by (cases "checkpoint self False w") simp_all
  from checkpoint_effect [of self False w] obtain evs where
    evs: "trace (world_of (checkpoint self False w))
           = trace w @ Yield (checkpoint_workload self (state w))
                         ((state w)\<lparr>last_ckpt := latest_batch (state w)\<rparr>) # evs"
      "kinds_of evs = []" "op_events evs = []" "\<forall>e\<in>set evs. \<not> train_event e"
    by blast
  show ?thesis
    apply (rule exI [of _ "Yield (checkpoint_workload self (state w))
                         ((state w)\<lparr>last_ckpt := latest_batch (state w)\<rparr>) # evs"])
    using w evs nc checkpoint_state [of self False w] checkpoint_op_completed [of self False w]
    by (simp add: checkpoint_workload_def)
qed

lemma validate_record_effect:
  "\<exists>evs. trace (world_of (validate_record self metric response w)) = trace w @ evs
      \<and> op_events evs = [] \<and> (\<forall>e\<in>set evs. \<not> train_event e)
      \<and> op_completed (world_of (validate_record self metric response w)) = op_completed w
      \<and> (kinds_of evs = []
            \<and> state (world_of (validate_record self metric response w))
                = (state w)\<lparr>last_val := latest_batch (state w)\<rparr>
          \<or> kinds_of evs = [CHECKPOINT_MODEL] \<and> last_ckpt (state w) \<noteq> latest_batch (state w)
            \<and> state (world_of (validate_record self metric response w))
                = (state w)\<lparr>last_val := latest_batch (state w),
                             last_ckpt := latest_batch (state w)\<rparr>)"
proof -
  obtain b w3 where bw: "(if ckpt_policy self = ''best'' \<and> \<not> checkpoint_is_current (state w)
             then get_experiment_best_validation w else (None, w)) = (b, w3)"
    by (cases "(if ckpt_policy self = ''best'' \<and> \<not> checkpoint_is_current (state w)
             then get_experiment_best_validation w else (None, w))") blast
  then have w3: "state w3 = state w \<and> op_completed w3 = op_completed w \<and> trace w3 = trace w"
    by (auto split: if_splits dest: best_validation_world)
  define w4 where "w4 = w3\<lparr>state := (state w3)\<lparr>last_val := latest_batch (state w3)\<rparr>\<rparr>"
  have w4: "state w4 = (state w)\<lparr>last_val := latest_batch (state w)\<rparr>"
    "op_completed w4 = op_completed w" "trace w4 = trace w"
    using w3 by (simp_all add: w4_def)
  have eq: "validate_record self metric response w =
      (if exited_reason response = Some ''USER_CANCELED''
       then Raise ShouldExit w4 else validate_checkpoint self metric b w4)"
    using bw by (simp add: validate_record_def w4_def)
  show ?thesis
  proof (cases "exited_reason response = Some ''USER_CANCELED''")
    case True
    then show ?thesis using eq w4 by simp
  next
    case False
    then have "validate_record self metric response w = validate_checkpoint self metric b w4"
      using eq by simp
    then show ?thesis
      using validate_checkpoint_effect [of self metric b w4] w4 by auto
  qed
qed

lemma validate_complete_effect:
  "state (world_of (validate_complete self op metric w)) = state w
   \<and> (trace (world_of (validate_complete self op metric w)) = trace w
        \<and> op_completed (world_of (validate_complete self op metric w)) = op_completed w
      \<or> (\<exists>o' b. op = Some o' \<and> batches_until_op_complete self o' (state w) = Inr b \<and> b < 1
            \<and> trace (world_of (validate_complete self op metric w)) = trace w @ [Complete o' metric]
            \<and> op_completed (world_of (validate_complete self op metric w))))"
  by (auto simp add: validate_complete_def complete_def split: option.splits sum.splits)

lemma validate_effect:
  "\<exists>evs. trace (world_of (validate self op w))
           = trace w @ Yield (validate_workload self (state w)) (state w) # evs
      \<and> validate_post self op (state w) (op_completed w)
           (state (world_of (validate self op w))) (op_completed (world_of (validate self op w)))
           evs"
proof (cases "yield_and_await_response (validate_workload self (state w)) w")
  case (Raise e w1)
  then have "validate self op w = Raise e w1" by (simp add: validate_unfold)
  moreover note yield_Raise [OF Raise]
  ultimately show ?thesis by (simp add: validate_post_def)
next
  case (Return r w1)
  note y = yield_Return [OF Return]
  have k: "kind (validate_workload self (state w)) = COMPUTE_VALIDATION_METRICS"
    by (simp add: validate_workload_def)
  show ?thesis
  proof (cases "exited_reason r = Some ''INVALID_HP''")
    case True
    then have "validate self op w = Raise ShouldExit (report_early_exit w1)"
      using Return by (simp add: validate_unfold)
    then show ?thesis using y k by (simp add: validate_post_def report_early_exit_def)
  next
    case False
    note nhp = this
    show ?thesis
    proof (cases "response_searcher_metric self r")
      case (Inl e')
      then have "validate self op w = Raise e' w1"
        using Return nhp by (simp add: validate_unfold)
      then show ?thesis using y k by (simp add: validate_post_def)
    next
      case Some: (Inr m)
      let ?c = "validate_complete self op m w1"
      note ce = validate_complete_effect [of self op m w1]
      show ?thesis
      proof (cases ?c)
        case (Raise e w2)
        then have v: "validate self op w = Raise e w2"
          using Return nhp Some by (simp add: validate_unfold)
        from ce Raise have "trace w2 = trace w1 \<and> op_completed w2 = op_completed w1
            \<and> state w2 = state w1"
          by (auto simp add: validate_complete_def split: option.splits sum.splits)
        then show ?thesis using v y k by (simp add: validate_post_def)
      next
        case (Return x w2)
        then have v: "validate self op w = validate_record self m r w2"
          using \<open>yield_and_await_response (validate_workload self (state w)) w = Return r w1\<close>
            nhp Some by (simp add: validate_unfold)
        from validate_record_effect [of self m r w2] obtain evs2 where
          r: "trace (world_of (validate_record self m r w2)) = trace w2 @ evs2"
            "op_events evs2 = []" "\<forall>e\<in>set evs2. \<not> train_event e"
            "op_completed (world_of (validate_record self m r w2)) = op_completed w2"
            "kinds_of evs2 = []
               \<and> state (world_of (validate_record self m r w2))
                   = (state w2)\<lparr>last_val := latest_batch (state w2)\<rparr>
             \<or> kinds_of evs2 = [CHECKPOINT_MODEL] \<and> last_ckpt (state w2) \<noteq> latest_batch (state w2)
               \<and> state (world_of (validate_record self m r w2))
                   = (state w2)\<lparr>last_val := latest_batch (state w2),
                                last_ckpt := latest_batch (state w2)\<rparr>"
          by blast
        from ce Return have s2: "state w2 = state w" using y by simp
        from ce Return consider
          (plain) "trace w2 = trace w1" "op_completed w2 = op_completed w1"
        | (completed) o' b where "op = Some o'"
            "batches_until_op_complete self o' (state w) = Inr b" "b < 1"
            "trace w2 = trace w1 @ [Complete o' m]" "op_completed w2"
          using y by auto
        then show ?thesis
        proof cases
          case plain
          show ?thesis
            apply (rule exI [of _ "Resume COMPUTE_VALIDATION_METRICS r # evs2"])
            using v r s2 plain y k by (auto simp add: validate_post_def)
        next
          case completed
          show ?thesis
            apply (rule exI [of _ "Resume COMPUTE_VALIDATION_METRICS r # Complete o' m # evs2"])
            using v r s2 completed y k Some by (auto simp add: validate_post_def)
        qed
      qed
    qed
  qed
qed

lemma validate_record_last_val:
  "last_val (state (world_of (validate_record self m r w))) = latest_batch (state w)"
  using validate_record_effect [of self m r w] by auto

lemma validate_Return_last_val:
  assumes "validate self op w = Return x w'"
  shows "last_val (state w') = latest_batch (state w)"
proof -
  from assms obtain r w1 m y w2 where
    a: "yield_and_await_response (validate_workload self (state w)) w = Return r w1"
       "validate_complete self op m w1 = Return y w2"
       "validate_record self m r w2 = Return x w'"
    by (auto simp add: validate_unfold split: result.splits if_splits sum.splits)
  have "state w1 = state w" using yield_Return [OF a(1)] by simp
  moreover have "state w2 = state w1"
    using validate_complete_effect [of self op m w1] a(2) by simp
  moreover have "last_val (state w') = latest_batch (state w2)"
    using validate_record_last_val [of self m r w2] a(3) by simp
  ultimately show ?thesis by simp
qed

lemma validate_latest_batch:
  "validate self op w = Return x w' \<Longrightarrow> latest_batch (state w') = latest_batch (state w)"
  using validate_effect [of self op w] by (auto simp add: validate_post_def)

lemma checkpoint_latest_batch:
  "checkpoint self ae w = Return x w' \<Longrightarrow> latest_batch (state w') = latest_batch (state w)"
  using checkpoint_state [of self ae w] by simp

lemma loop_body_progress:
  assumes "loop_body self op w = Return x w'"
  shows "latest_batch (state w) < latest_batch (state w')"
  using assms
  by (auto simp add: loop_body_def split: result.splits if_splits sum.splits
      dest!: validate_latest_batch checkpoint_latest_batch train_Return_state)

subsection \<open>The loops of \<^verbatim>\<open>__iter__\<close>\<close>

text \<open>
  The \<^verbatim>\<open>while\<close> loop of one operation. Each pass trains at least one batch, so the
  distance to the target of the operation decreases.
\<close>

function op_loop :: "sequencer \<Rightarrow> SearcherOp \<Rightarrow> world \<Rightarrow> unit result" where
  "op_loop self op w =
     (case batches_until_op_complete self op (state w) of
        Inl e \<Rightarrow> Raise e w
      | Inr b \<Rightarrow>
         if b > 0
         then (case loop_body self op w of
                 Raise e w1 \<Rightarrow> Raise e w1
               | Return _ w1 \<Rightarrow> op_loop self op w1)
         else Return () w)"
  by pat_completeness auto
termination
proof (relation "measure (\<lambda>(self, op, w).
         case batches_until_op_complete self op (state w) of Inl _ \<Rightarrow> 0 | Inr b \<Rightarrow> nat b)")
  show "wf (measure (\<lambda>(self, op, w).
         case batches_until_op_complete self op (state w) of Inl _ \<Rightarrow> 0 | Inr b \<Rightarrow> nat b))"
    by simp
next
  fix self op w b x w1
  assume b: "batches_until_op_complete self op (state w) = Inr b" "0 < b"
    and body: "loop_body self op w = Return x w1"
  from b obtain n where n: "b = n - latest_batch (state w)"
    "batches_until_op_complete self op (state w1) = Inr (n - latest_batch (state w1))"
    by (auto simp add: batches_until_op_complete_def split: sum.splits)
  from loop_body_progress [OF body] b n
  show "((self, op, w1), (self, op, w)) \<in> measure (\<lambda>(self, op, w).
         case batches_until_op_complete self op (state w) of Inl _ \<Rightarrow> 0 | Inr b \<Rightarrow> nat b)"
    by simp
qed

declare op_loop.simps [simp del]

text \<open>After the \<^verbatim>\<open>while\<close> loop: checkpoint, then validate, then the assertion.\<close>

definition op_done :: "sequencer \<Rightarrow> SearcherOp \<Rightarrow> world \<Rightarrow> unit result" where
  "op_done self op w =
     (case (if \<not> checkpoint_is_current (state w)
            then checkpoint self False w else Return () w) of
        Raise e w1 \<Rightarrow> Raise e w1
      | Return _ w1 \<Rightarrow>
         (case (if \<not> validation_is_current (state w1)
                then validate self (Some op) w1 else Return () w1) of
            Raise e w2 \<Rightarrow> Raise e w2
          | Return _ w2 \<Rightarrow>
             if op_completed w2 then Return () w2 else Raise AssertionError w2))"

text \<open>The body of the \<^verbatim>\<open>for\<close> loop, for one operation.\<close>

definition run_op :: "sequencer \<Rightarrow> SearcherOp \<Rightarrow> world \<Rightarrow> unit result" where
  "run_op self op w =
     (case op_loop self op w of
        Raise e w1 \<Rightarrow> Raise e w1
      | Return _ w1 \<Rightarrow> op_done self op w1)"

text \<open>
  The \<^verbatim>\<open>for\<close> loop over \<^verbatim>\<open>searcher.ops()\<close>; the feed is the list of the operations it
  will hand out, each one not yet completed.
\<close>

fun for_ops :: "sequencer \<Rightarrow> SearcherOp list \<Rightarrow> world \<Rightarrow> unit result" where
  "for_ops self [] w = Return () w"
| "for_ops self (op # ops) w =
     (case run_op self op (w\<lparr>op_completed := False, trace := trace w @ [Next_op op]\<rparr>) of
        Raise e w1 \<Rightarrow> Raise e w1
      | Return _ w1 \<Rightarrow> for_ops self ops w1)"

text \<open>The body of the \<^verbatim>\<open>try\<close> statement.\<close>

definition try_body :: "sequencer \<Rightarrow> SearcherOp list \<Rightarrow> world \<Rightarrow> unit result" where
  "try_body self ops w =
     (case (if want_initial_val self \<and> val_from_previous_run self = None
               \<and> latest_batch (state w) = 0
            then validate self None w else Return () w) of
        Raise e w1 \<Rightarrow> Raise e w1
      | Return _ w1 \<Rightarrow> for_ops self ops w1)"

text \<open>
  \<^verbatim>\<open>__iter__\<close>: the handler of \<open>ShouldExit\<close> checkpoints unsaved work; every other
  exception leaves the generator.
\<close>

definition iter :: "sequencer \<Rightarrow> SearcherOp list \<Rightarrow> world \<Rightarrow> unit result" where
  "iter self ops w =
     (case try_body self ops w of
        Return _ w1 \<Rightarrow> Return () w1
      | Raise e w1 \<Rightarrow>
         if e = ShouldExit
         then (if \<not> checkpoint_is_current (state w1)
               then checkpoint self True w1 else Return () w1)
         else Raise e w1)"

subsection \<open>A concrete configuration\<close>

definition example_env :: env where
  "example_env =
     \<lparr>det_trial_id = 7, det_experiment_id = 1, last_validation = None,
      perform_initial_validation = False, checkpoint_policy = ''none'',
      env_records_per_epoch = Some 100, env_global_batch_size = 10,
      min_validation_period = \<lparr>spec_batches = Some 0, spec_records = None, spec_epochs = None\<rparr>,
      min_checkpoint_period = \<lparr>spec_batches = Some 5, spec_records = None, spec_epochs = None\<rparr>,
      env_scheduling_unit = 10, env_searcher_metric = ''loss'', env_smaller_is_better = True\<rparr>"

definition example_self :: sequencer where
  "example_self =
     \<lparr>records_per_epoch = Some 100, global_batch_size = 10, self_trial_id = 7, exp_id = 1,
      val_from_previous_run = None, want_initial_val = False, ckpt_policy = ''none'',
      min_val_period_batches = sys_maxsize, min_ckpt_period_batches = 5,
      scheduling_unit = 10, searcher_metric = ''loss'', smaller_is_better = True\<rparr>"

definition fresh_state :: "int \<Rightarrow> SavableState" where
  "fresh_state tid = SavableState_init tid None None None None None"

text \<open>The two conditional steps at the head of the loop body.\<close>

definition validate_step :: "sequencer \<Rightarrow> SearcherOp \<Rightarrow> world \<Rightarrow> unit result" where
  "validate_step self op w =
     (if batches_until_val self (state w) < 1 then validate self (Some op) w else Return () w)"

definition checkpoint_step :: "sequencer \<Rightarrow> world \<Rightarrow> unit result" where
  "checkpoint_step self w =
     (if batches_until_ckpt self (state w) < 1 then checkpoint self False w else Return () w)"

text \<open>The number of batches that the loop body trains in state \<open>s\<close>.\<close>

definition chunk :: "sequencer \<Rightarrow> int \<Rightarrow> SavableState \<Rightarrow> int" where
  "chunk self b s =
     max 1 (min (batches_until_ckpt self s) (min (batches_until_val self s)
              (min b (scheduling_unit self))))"

text \<open>
  The size of a training workload \<open>wk\<close> yielded in state \<open>s\<close> for the operation \<open>op\<close> is
  what the main loop computes in \<open>s\<close>, and neither action is due in \<open>s\<close>.
\<close>

definition train_chunk_ok :: "sequencer \<Rightarrow> SearcherOp \<Rightarrow> Workload \<Rightarrow> SavableState \<Rightarrow> bool" where
  "train_chunk_ok self op wk s \<longleftrightarrow>
     (\<exists>b. batches_until_op_complete self op s = Inr b
        \<and> num_batches wk =
            max 1 (min (batches_until_ckpt self s) (min (batches_until_val self s)
                     (min b (scheduling_unit self)))))
     \<and> 1 \<le> num_batches wk
     \<and> (1 \<le> min_val_period_batches self \<and> 1 \<le> min_ckpt_period_batches self \<longrightarrow>
          \<not> batches_until_val self s < 1 \<and> \<not> batches_until_ckpt self s < 1)"

definition trains_ok :: "sequencer \<Rightarrow> SearcherOp set \<Rightarrow> event list \<Rightarrow> bool" where
  "trains_ok self ops evs \<longleftrightarrow>
     (\<forall>wk s. Yield wk s \<in> set evs \<and> kind wk = RUN_STEP \<longrightarrow>
        (\<exists>op\<in>ops. train_chunk_ok self op wk s))"

text \<open>A step from \<open>w\<close> with result \<open>res\<close> adds events that satisfy \<open>P\<close>.\<close>

definition emits :: "(event list \<Rightarrow> bool) \<Rightarrow> world \<Rightarrow> 'a result \<Rightarrow> bool" where
  "emits P w res \<longleftrightarrow> (\<exists>evs. trace (world_of res) = trace w @ evs \<and> P evs)"

definition closed :: "(event list \<Rightarrow> bool) \<Rightarrow> bool" where
  "closed P \<longleftrightarrow> P [] \<and> (\<forall>xs ys. P xs \<and> P ys \<longrightarrow> P (xs @ ys))"

definition ok_result :: Metrics where
  "ok_result =
     \<lparr>exited_reason = None,
      metrics = Some \<lparr>num_inputs = Some 50,
                      validation_metrics = Some [''loss'' \<mapsto> 1 / 2]\<rparr>\<rparr>"

definition example_op :: SearcherOp where
  "example_op = \<lparr>op_unit = BATCHES, op_length = 10\<rparr>"

definition example_world :: world where
  "example_world =
     \<lparr>state = fresh_state 7,
      inbox = [[Result ok_result], [Result ok_result], [Result ok_result], [Result ok_result],
               [Result ok_result]],
      polls = [], bests = [], op_completed = False, trace = []\<rparr>"

definition records_env :: env where
  "records_env = example_env
     \<lparr>min_validation_period := \<lparr>spec_batches = None, spec_records = Some 0, spec_epochs = None\<rparr>\<rparr>"

definition absent_env :: env where
  "absent_env = example_env
     \<lparr>min_validation_period := \<lparr>spec_batches = None, spec_records = None, spec_epochs = None\<rparr>\<rparr>"

definition epochs_env :: env where
  "epochs_env = example_env
     \<lparr>min_validation_period := \<lparr>spec_batches = None, spec_records = None, spec_epochs = Some 2\<rparr>,
      min_checkpoint_period := \<lparr>spec_batches = Some 0, spec_records = None, spec_epochs = None\<rparr>\<rparr>"

definition checkpoint_records_env :: env where
  "checkpoint_records_env = example_env
     \<lparr>min_checkpoint_period := \<lparr>spec_batches = None, spec_records = Some 30, spec_epochs = None\<rparr>\<rparr>"

definition checkpoint_absent_env :: env where
  "checkpoint_absent_env = example_env
     \<lparr>min_checkpoint_period := \<lparr>spec_batches = None, spec_records = None, spec_epochs = None\<rparr>\<rparr>"

datatype operation =
    Load_state snapshot
  | Train int SearcherOp
  | Validate "SearcherOp option"
  | Checkpoint bool

text \<open>
  One operation of the scheduler on \<^verbatim>\<open>self.state\<close>, with any argument; the collaborators
  may answer in any way (any world with that state).
\<close>

inductive step :: "sequencer \<Rightarrow> operation \<Rightarrow> SavableState \<Rightarrow> SavableState \<Rightarrow> bool" where
  step_load: "step self (Load_state snap) s (load_state self snap s)"
| step_train: "step self (Train n op) (state w) (state (world_of (train self n op w)))"
| step_validate: "step self (Validate op) (state w) (state (world_of (validate self op w)))"
| step_checkpoint: "step self (Checkpoint ae) (state w) (state (world_of (checkpoint self ae w)))"

text \<open>
  The counters that \<^verbatim>\<open>SavableState(**snapshot)\<close> takes from a snapshot satisfy the two
  inequalities.
\<close>

definition snapshot_counters_ok :: "snapshot \<Rightarrow> bool" where
  "snapshot_counters_ok snap \<longleftrightarrow>
     (case snap_last_ckpt snap of None \<Rightarrow> 0 | Some v \<Rightarrow> v)
       \<le> (case snap_latest_batch snap of None \<Rightarrow> 0 | Some v \<Rightarrow> v)
     \<and> (case snap_last_val snap of None \<Rightarrow> 0 | Some v \<Rightarrow> v)
       \<le> (case snap_latest_batch snap of None \<Rightarrow> 0 | Some v \<Rightarrow> v)"

text \<open>
  The operations of the amended claim: a snapshot with consistent counters, and no
  negative number of batches.
\<close>

fun admissible :: "operation \<Rightarrow> bool" where
  "admissible (Load_state snap) = snapshot_counters_ok snap"
| "admissible (Train n op) = (0 \<le> n)"
| "admissible (Validate op) = True"
| "admissible (Checkpoint ae) = True"

fun is_load_state :: "operation \<Rightarrow> bool" where
  "is_load_state (Load_state snap) = True"
| "is_load_state a = False"

text \<open>The states that the construction and a sequence of admissible operations lead to.\<close>

inductive reachable :: "sequencer \<Rightarrow> SavableState \<Rightarrow> bool" where
  construction: "reachable self (fresh_state (self_trial_id self))"
| operation: "reachable self s \<Longrightarrow> step self a s s' \<Longrightarrow> admissible a \<Longrightarrow> reachable self s'"

definition counters_ok :: "SavableState \<Rightarrow> bool" where
  "counters_ok s \<longleftrightarrow> last_ckpt s \<le> latest_batch s \<and> last_val s \<le> latest_batch s"

definition trained_state :: SavableState where
  "trained_state = \<lparr>trial_id = 7, last_ckpt = 0, latest_batch = 1, total_records = Some 50,
                     step_id = 1, last_val = 0\<rparr>"

definition bad_snapshot :: snapshot where
  "bad_snapshot = \<lparr>snap_trial_id = Some 7, snap_last_ckpt = Some 5, snap_latest_batch = None,
                    snap_total_records = None, snap_step_id = None, snap_last_val = Some 3\<rparr>"

text \<open>
  Reading a trace from the left with the operation \<open>cur\<close> that the feed handed out last:
  every training workload has the size that the main loop computes for \<open>cur\<close>.
\<close>

fun chunks_ok :: "sequencer \<Rightarrow> SearcherOp option \<Rightarrow> event list \<Rightarrow> bool" where
  "chunks_ok self cur [] = True"
| "chunks_ok self cur (Next_op op # evs) = chunks_ok self (Some op) evs"
| "chunks_ok self cur (Yield wk s # evs) =
     ((kind wk = RUN_STEP \<longrightarrow>
         (case cur of None \<Rightarrow> False | Some op \<Rightarrow> train_chunk_ok self op wk s))
      \<and> chunks_ok self cur evs)"
| "chunks_ok self cur (e # evs) = chunks_ok self cur evs"

fun handed_out :: "event list \<Rightarrow> SearcherOp list" where
  "handed_out [] = []"
| "handed_out (Next_op op # evs) = op # handed_out evs"
| "handed_out (e # evs) = handed_out evs"

text \<open>What is handed out while one operation is processed: nothing.\<close>

definition quiet :: "sequencer \<Rightarrow> SearcherOp \<Rightarrow> event list \<Rightarrow> bool" where
  "quiet self op evs \<longleftrightarrow> handed_out evs = [] \<and> trains_ok self {op} evs"




section \<open>Properties\<close>

lemma example_init: "sequencer_init example_env = Inr (example_self, fresh_state 7)"
  by (simp add: sequencer_init_def example_env_def example_self_def fresh_state_def
      as_batches_def period_or_maxsize_def Let_def)


subsection \<open>Length conversion\<close>

text \<open>
  Claim C7. With exactly one field set, \<open>as_batches\<close> returns the \<open>batches\<close> value unchanged;
  \<open>max (records div global_batch_size) 1\<close> for \<open>records\<close> when \<open>global_batch_size > 0\<close>;
  \<open>max ((epochs * records_per_epoch) div global_batch_size) 1\<close> for \<open>epochs\<close> when
  \<open>records_per_epoch\<close> is an integer and \<open>global_batch_size > 0\<close>. A batch size of 4 turns
  10 records into 2 batches; 100 records per epoch and a batch size of 10 turn 2 epochs
  into 20 batches.
\<close>

theorem as_batches_result:
  "as_batches self (Some b) None None = Inr b
   \<and> (global_batch_size self > 0 \<longrightarrow>
        as_batches self None (Some r) None = Inr (max (r div global_batch_size self) 1))
   \<and> (global_batch_size self > 0 \<longrightarrow> records_per_epoch self = Some rpe \<longrightarrow>
        as_batches self None None (Some ep) = Inr (max ((ep * rpe) div global_batch_size self) 1))
   \<and> as_batches \<lparr>records_per_epoch = None, global_batch_size = 4\<rparr> None (Some 10) None = Inr 2
   \<and> as_batches \<lparr>records_per_epoch = Some 100, global_batch_size = 10\<rparr> None None (Some 2) = Inr 20"
  by (simp add: as_batches_def check_gt_def)

theorem as_batches_result_witness:
  "global_batch_size \<lparr>records_per_epoch = Some 7, global_batch_size = 3\<rparr> > 0
   \<and> records_per_epoch \<lparr>records_per_epoch = Some 7, global_batch_size = 3\<rparr> = Some 7
   \<and> as_batches \<lparr>records_per_epoch = Some 7, global_batch_size = 3\<rparr> (Some 5) None None = Inr 5
   \<and> as_batches \<lparr>records_per_epoch = Some 7, global_batch_size = 3\<rparr> None (Some 2) None = Inr 1
   \<and> as_batches \<lparr>records_per_epoch = Some 7, global_batch_size = 3\<rparr> None None (Some 2) = Inr 4"
  using as_batches_result [of "\<lparr>records_per_epoch = Some 7, global_batch_size = 3\<rparr>" 5 2 7 2]
  by simp

subsection \<open>Persisting and restoring the state\<close>

text \<open>
  Claim C8. Restoring the snapshot that \<open>get_state\<close> made of a state with the sequencer's
  trial id gives that state again, except that \<open>last_val\<close> becomes \<open>latest_batch\<close> exactly
  when the restored \<open>latest_batch\<close> is the last validation known from a previous run; a
  snapshot with another trial id leaves the current state as it is.
\<close>

theorem load_state_roundtrip:
  "(trial_id s = self_trial_id self \<longrightarrow>
      load_state self (get_state s) cur =
        (if val_from_previous_run self = Some (latest_batch s)
         then s\<lparr>last_val := latest_batch s\<rparr> else s))
   \<and> (snap_trial_id snap \<noteq> Some (self_trial_id self) \<longrightarrow> load_state self snap cur = cur)"
  by (auto simp add: load_state_def get_state_def SavableState_init_def)

theorem load_state_roundtrip_witness:
  "trial_id (fresh_state 7) = self_trial_id example_self
   \<and> load_state example_self (get_state (fresh_state 7)) (fresh_state 7\<lparr>latest_batch := 3\<rparr>)
       = fresh_state 7
   \<and> snap_trial_id (get_state (fresh_state 8)) \<noteq> Some (self_trial_id example_self)
   \<and> load_state example_self (get_state (fresh_state 8)) (fresh_state 7\<lparr>latest_batch := 3\<rparr>)
       = fresh_state 7\<lparr>latest_batch := 3\<rparr>"
  using load_state_roundtrip [of "fresh_state 7" example_self "fresh_state 7\<lparr>latest_batch := 3\<rparr>"
      "get_state (fresh_state 8)"]
  by (simp add: example_self_def fresh_state_def SavableState_init_def get_state_def)

subsection \<open>The handshake\<close>

lemma respond_calls_Skipped:
  "Skipped \<in> set calls \<Longrightarrow> respond_calls out calls = Inl AssertionError"
  by (induction calls arbitrary: out) (auto split: sum.splits Response.splits elim: respond.elims)

lemma respond_calls_last:
  "calls \<noteq> [] \<Longrightarrow> Skipped \<notin> set calls \<Longrightarrow>
   \<exists>r. last calls = Result r \<and> respond_calls out calls = Inr (Some r)"
proof (induction calls arbitrary: out)
  case Nil
  then show ?case by simp
next
  case (Cons c calls)
  then obtain r where c: "c = Result r" by (cases c) auto
  show ?case
  proof (cases "calls = []")
    case True
    then show ?thesis using c by simp
  next
    case False
    then show ?thesis using Cons c by simp
  qed
qed

text \<open>
  Claim C9, as the code has it. A generator resumed after no call of the response
  function fails its assertion, and so does a \<open>Skipped\<close> response; otherwise the handshake
  returns the response of the last call, whatever the number of calls.
\<close>

theorem await_response_last:
  "await_response [] = Inl AssertionError
   \<and> (Skipped \<in> set calls \<longrightarrow> await_response calls = Inl AssertionError)
   \<and> (calls \<noteq> [] \<and> Skipped \<notin> set calls \<longrightarrow>
        (\<exists>r. last calls = Result r \<and> await_response calls = Inr r))"
proof (intro conjI impI)
  show "await_response [] = Inl AssertionError" by (simp add: await_response_def)
next
  assume "Skipped \<in> set calls"
  then show "await_response calls = Inl AssertionError"
    by (simp add: await_response_def respond_calls_Skipped)
next
  assume "calls \<noteq> [] \<and> Skipped \<notin> set calls"
  then obtain r where "last calls = Result r" "respond_calls None calls = Inr (Some r)"
    using respond_calls_last by blast
  then show "\<exists>r. last calls = Result r \<and> await_response calls = Inr r"
    by (simp add: await_response_def)
qed

theorem await_response_last_witness:
  "Skipped \<in> set [Skipped]
   \<and> await_response [Skipped] = Inl AssertionError
   \<and> [Result \<lparr>exited_reason = None, metrics = Some \<lparr>num_inputs = Some 1, validation_metrics = None\<rparr>\<rparr>] \<noteq> []
   \<and> Skipped \<notin> set [Result \<lparr>exited_reason = None, metrics = Some \<lparr>num_inputs = Some 1, validation_metrics = None\<rparr>\<rparr>]
   \<and> await_response [Result \<lparr>exited_reason = None, metrics = Some \<lparr>num_inputs = Some 1, validation_metrics = None\<rparr>\<rparr>]
       = Inr \<lparr>exited_reason = None, metrics = Some \<lparr>num_inputs = Some 1, validation_metrics = None\<rparr>\<rparr>"
  using await_response_last [of "[Skipped]"]
    await_response_last [of "[Result \<lparr>exited_reason = None, metrics = Some \<lparr>num_inputs = Some 1, validation_metrics = None\<rparr>\<rparr>]"]
  by simp

text \<open>
  Claim C9, as stated, fails: two calls of the response function for one yielded workload
  fail no assertion, and the handshake returns the second response.
\<close>

theorem await_response_twice_counterexample:
  "await_response
     [Result \<lparr>exited_reason = None, metrics = Some \<lparr>num_inputs = Some 1, validation_metrics = None\<rparr>\<rparr>,
      Result \<lparr>exited_reason = None, metrics = Some \<lparr>num_inputs = Some 2, validation_metrics = None\<rparr>\<rparr>]
   = Inr \<lparr>exited_reason = None, metrics = Some \<lparr>num_inputs = Some 2, validation_metrics = None\<rparr>\<rparr>"
  by (simp add: await_response_def)

subsection \<open>The loop body, step by step\<close>

lemma loop_body_unfold:
  "loop_body self op w =
     (case validate_step self op w of
        Raise e w1 \<Rightarrow> Raise e w1
      | Return _ w1 \<Rightarrow>
         (case checkpoint_step self w1 of
            Raise e w2 \<Rightarrow> Raise e w2
          | Return _ w2 \<Rightarrow>
             (case batches_until_op_complete self op (state w2) of
                Inl e \<Rightarrow> Raise e w2
              | Inr b \<Rightarrow> train self (chunk self b (state w2)) op w2)))"
  unfolding loop_body_def validate_step_def checkpoint_step_def chunk_def
  by (rule refl)

lemma loop_body_cases [case_names validate_raised checkpoint_raised op_raised trained]:
  obtains
    (validate_raised) e w1 where
      "validate_step self op w = Raise e w1" "loop_body self op w = Raise e w1"
  | (checkpoint_raised) x w1 e w2 where
      "validate_step self op w = Return x w1" "checkpoint_step self w1 = Raise e w2"
      "loop_body self op w = Raise e w2"
  | (op_raised) x w1 y w2 e where
      "validate_step self op w = Return x w1" "checkpoint_step self w1 = Return y w2"
      "batches_until_op_complete self op (state w2) = Inl e"
      "loop_body self op w = Raise e w2"
  | (trained) x w1 y w2 b where
      "validate_step self op w = Return x w1" "checkpoint_step self w1 = Return y w2"
      "batches_until_op_complete self op (state w2) = Inr b"
      "loop_body self op w = train self (chunk self b (state w2)) op w2"
proof (cases "validate_step self op w")
  case (Raise e w1)
  then show ?thesis using validate_raised by (simp add: loop_body_unfold)
next
  case v: (Return x w1)
  show ?thesis
  proof (cases "checkpoint_step self w1")
    case (Raise e w2)
    then show ?thesis using checkpoint_raised v by (simp add: loop_body_unfold)
  next
    case c: (Return y w2)
    show ?thesis
    proof (cases "batches_until_op_complete self op (state w2)")
      case (Inl e)
      then show ?thesis using op_raised v c by (simp add: loop_body_unfold)
    next
      case (Inr b)
      then show ?thesis using trained v c by (simp add: loop_body_unfold)
    qed
  qed
qed

lemma validate_step_effect:
  "(batches_until_val self (state w) < 1 \<longrightarrow>
      (\<exists>evs. trace (world_of (validate_step self op w))
                = trace w @ Yield (validate_workload self (state w)) (state w) # evs
            \<and> validate_post self (Some op) (state w) (op_completed w)
                 (state (world_of (validate_step self op w)))
                 (op_completed (world_of (validate_step self op w))) evs))
   \<and> (\<not> batches_until_val self (state w) < 1 \<longrightarrow> world_of (validate_step self op w) = w)"
  using validate_effect [of self "Some op" w] by (auto simp add: validate_step_def)

lemma checkpoint_step_effect:
  "op_completed (world_of (checkpoint_step self w)) = op_completed w
   \<and> (batches_until_ckpt self (state w) < 1 \<longrightarrow>
        (\<exists>evs. trace (world_of (checkpoint_step self w))
                  = trace w @ Yield (checkpoint_workload self (state w))
                              ((state w)\<lparr>last_ckpt := latest_batch (state w)\<rparr>) # evs
               \<and> kinds_of evs = [] \<and> op_events evs = [] \<and> (\<forall>e\<in>set evs. \<not> train_event e))
        \<and> state (world_of (checkpoint_step self w))
             = (state w)\<lparr>last_ckpt := latest_batch (state w)\<rparr>)
   \<and> (\<not> batches_until_ckpt self (state w) < 1 \<longrightarrow> world_of (checkpoint_step self w) = w)"
  using checkpoint_effect [of self False w] checkpoint_state [of self False w]
    checkpoint_op_completed [of self False w]
  by (auto simp add: checkpoint_step_def)

lemma trains_ok_append:
  "trains_ok self ops (xs @ ys) \<longleftrightarrow> trains_ok self ops xs \<and> trains_ok self ops ys"
  by (auto simp add: trains_ok_def)

lemma trains_ok_mono: "trains_ok self A evs \<Longrightarrow> A \<subseteq> B \<Longrightarrow> trains_ok self B evs"
  unfolding trains_ok_def by blast

lemma trains_ok_no_train: "\<forall>e\<in>set evs. \<not> train_event e \<Longrightarrow> trains_ok self ops evs"
  by (force simp add: trains_ok_def)

lemma trains_ok_Nil [simp]: "trains_ok self ops []"
  by (simp add: trains_ok_def)

lemma validate_trains_ok:
  "\<exists>evs. trace (world_of (validate self op w)) = trace w @ evs \<and> trains_ok self ops evs"
proof -
  from validate_effect [of self op w] obtain evs where
    "trace (world_of (validate self op w))
       = trace w @ Yield (validate_workload self (state w)) (state w) # evs"
    "\<forall>e\<in>set evs. \<not> train_event e"
    by (auto simp add: validate_post_def)
  then have "\<forall>e\<in>set (Yield (validate_workload self (state w)) (state w) # evs). \<not> train_event e"
    by (simp add: validate_workload_def)
  then show ?thesis
    using \<open>trace (world_of (validate self op w))
       = trace w @ Yield (validate_workload self (state w)) (state w) # evs\<close>
      trains_ok_no_train by blast
qed

lemma checkpoint_trains_ok:
  "\<exists>evs. trace (world_of (checkpoint self ae w)) = trace w @ evs \<and> trains_ok self ops evs"
proof -
  from checkpoint_effect [of self ae w] obtain evs where
    t: "trace (world_of (checkpoint self ae w))
       = trace w @ Yield (checkpoint_workload self (state w))
                     ((state w)\<lparr>last_ckpt := latest_batch (state w)\<rparr>) # evs"
    and "\<forall>e\<in>set evs. \<not> train_event e"
    by auto
  then have "\<forall>e\<in>set (Yield (checkpoint_workload self (state w))
                     ((state w)\<lparr>last_ckpt := latest_batch (state w)\<rparr>) # evs). \<not> train_event e"
    by (simp add: checkpoint_workload_def)
  then show ?thesis using t trains_ok_no_train by blast
qed

lemma train_trains_ok:
  assumes "train_chunk_ok self op (train_workload self n (state w)) (state w)"
  shows "\<exists>evs. trace (world_of (train self n op w)) = trace w @ evs \<and> trains_ok self {op} evs"
proof -
  from train_effect [of self n op w] obtain evs where
    t: "trace (world_of (train self n op w))
           = trace w @ Yield (train_workload self n (state w)) (state w) # evs"
    and e: "evs = [] \<or> (\<exists>r. evs = [Resume RUN_STEP r])
            \<or> (\<exists>r. evs = [Resume RUN_STEP r, Early_exit])"
    by auto
  from e assms have "trains_ok self {op} (Yield (train_workload self n (state w)) (state w) # evs)"
    by (auto simp add: trains_ok_def)
  then show ?thesis using t by blast
qed

lemma loop_body_trains_ok:
  "\<exists>evs. trace (world_of (loop_body self op w)) = trace w @ evs \<and> trains_ok self {op} evs"
proof -
  note v = validate_step_effect [of self w op]
  have vt: "\<exists>evs. trace (world_of (validate_step self op w)) = trace w @ evs
      \<and> trains_ok self {op} evs"
    using validate_trains_ok [of self "Some op" w "{op}"] by (simp add: validate_step_def)
  have ct: "\<And>w1. \<exists>evs. trace (world_of (checkpoint_step self w1)) = trace w1 @ evs
      \<and> trains_ok self {op} evs"
    using checkpoint_trains_ok [of self False _ "{op}"] by (simp add: checkpoint_step_def)
  show ?thesis
  proof (cases rule: loop_body_cases [of self op w])
    case (validate_raised e w1)
    then show ?thesis using vt by simp
  next
    case (checkpoint_raised x w1 e w2)
    then show ?thesis using vt ct [of w1] by (auto simp add: trains_ok_append)
  next
    case (op_raised x w1 y w2 e)
    then show ?thesis using vt ct [of w1] by (auto simp add: trains_ok_append)
  next
    case (trained x w1 y w2 b)
    have s1: "\<not> batches_until_val self (state w) < 1 \<longrightarrow> state w1 = state w"
      using v trained(1) by auto
    have val1: "1 \<le> min_val_period_batches self \<longrightarrow> \<not> batches_until_val self (state w1) < 1"
    proof (cases "batches_until_val self (state w) < 1")
      case True
      then have "validate self (Some op) w = Return x w1"
        using trained(1) by (simp add: validate_step_def)
      then have "last_val (state w1) = latest_batch (state w)"
        "latest_batch (state w1) = latest_batch (state w)"
        using validate_Return_last_val validate_latest_batch by blast+
      then show ?thesis by (simp add: batches_until_val_def)
    next
      case False
      then show ?thesis using s1 by simp
    qed
    note c = checkpoint_step_effect [of self w1]
    have val2: "batches_until_val self (state w2) = batches_until_val self (state w1)"
      using c trained(2) by (cases "batches_until_ckpt self (state w1) < 1")
        (auto simp add: batches_until_val_def)
    have ck2: "1 \<le> min_ckpt_period_batches self \<longrightarrow> \<not> batches_until_ckpt self (state w2) < 1"
      using c trained(2) by (cases "batches_until_ckpt self (state w1) < 1")
        (auto simp add: batches_until_ckpt_def)
    have "train_chunk_ok self op (train_workload self (chunk self b (state w2)) (state w2))
            (state w2)"
      using trained(3) val1 val2 ck2
      by (simp add: train_chunk_ok_def train_workload_def chunk_def)
    from train_trains_ok [OF this] obtain evt where
      "trace (world_of (loop_body self op w)) = trace w2 @ evt" "trains_ok self {op} evt"
      using trained(4) by auto
    then show ?thesis using vt ct [of w1] trained(1,2) by (auto simp add: trains_ok_append)
  qed
qed

lemma emits_Return: "closed P \<Longrightarrow> emits P w (Return x w)"
  by (simp add: emits_def closed_def)

lemma emits_Raise: "closed P \<Longrightarrow> emits P w (Raise e w)"
  by (simp add: emits_def closed_def)

lemma emits_seq:
  assumes "closed P" "emits P w m" "\<And>x w1. m = Return x w1 \<Longrightarrow> emits P w1 (f x w1)"
  shows "emits P w (case m of Raise e w1 \<Rightarrow> Raise e w1 | Return x w1 \<Rightarrow> f x w1)"
proof (cases m)
  case (Raise e w1)
  then show ?thesis using assms(2) by (simp add: emits_def)
next
  case (Return x w1)
  from assms(3) [OF Return] obtain ys where
    ys: "trace (world_of (f x w1)) = trace w1 @ ys" "P ys" by (auto simp add: emits_def)
  from assms(2) Return obtain xs where xs: "trace w1 = trace w @ xs" "P xs"
    by (auto simp add: emits_def)
  from xs ys assms(1) have "trace (world_of (f x w1)) = trace w @ (xs @ ys) \<and> P (xs @ ys)"
    by (simp add: closed_def)
  then show ?thesis using Return unfolding emits_def by (simp only: result.case) blast
qed

lemma emits_if:
  assumes "closed P" "c \<Longrightarrow> emits P w (m w)"
  shows "emits P w (if c then m w else Return x w)"
  using assms by (simp add: emits_Return)

lemma op_loop_emits:
  assumes "closed P" "\<And>w. emits P w (loop_body self op w)"
  shows "emits P w (op_loop self op w)"
  using assms
proof (induction self op w rule: op_loop.induct)
  case (1 self op w)
  note closed = "1.prems"(1) and body = "1.prems"(2)
  show ?case
  proof (cases "batches_until_op_complete self op (state w)")
    case (Inl e)
    then show ?thesis using closed by (simp add: op_loop.simps [of self op w] emits_Raise)
  next
    case (Inr b)
    show ?thesis
    proof (cases "b > 0")
      case False
      then show ?thesis using Inr closed
        by (simp add: op_loop.simps [of self op w] emits_Return)
    next
      case True
      have "emits P w (case loop_body self op w of Raise e w1 \<Rightarrow> Raise e w1
                        | Return x w1 \<Rightarrow> op_loop self op w1)"
        using closed body [of w]
      proof (rule emits_seq)
        fix x w1 assume "loop_body self op w = Return x w1"
        then show "emits P w1 (op_loop self op w1)"
          using "1.IH" Inr True closed body by simp
      qed
      then show ?thesis using Inr True by (simp add: op_loop.simps [of self op w])
    qed
  qed
qed

lemma op_done_emits:
  assumes "closed P" "\<And>ae w. emits P w (checkpoint self ae w)"
    "\<And>op w. emits P w (validate self op w)"
  shows "emits P w (op_done self op w)"
  unfolding op_done_def
  apply (rule emits_seq [OF assms(1)])
   apply (simp add: assms emits_Return)
  apply (rule emits_seq [OF assms(1)])
   apply (simp add: assms emits_Return)
  apply (simp add: assms emits_Return emits_Raise)
  done

lemma run_op_emits:
  assumes "closed P" "\<And>ae w. emits P w (checkpoint self ae w)"
    "\<And>op w. emits P w (validate self op w)" "\<And>w. emits P w (loop_body self op w)"
  shows "emits P w (run_op self op w)"
  unfolding run_op_def
  apply (rule emits_seq [OF assms(1)])
   apply (rule op_loop_emits [OF assms(1) assms(4)])
  apply (rule op_done_emits [OF assms(1-3)])
  done

lemma emits_prepend:
  assumes "closed P" "P xs" "emits P (w\<lparr>op_completed := c, trace := trace w @ xs\<rparr>) res"
  shows "emits P w res"
  using assms by (auto simp add: emits_def closed_def)

lemma for_ops_emits:
  assumes "closed P" "\<And>ae w. emits P w (checkpoint self ae w)"
    "\<And>op w. emits P w (validate self op w)"
    "\<And>op w. op \<in> set ops \<Longrightarrow> emits P w (loop_body self op w)"
    "\<And>op. op \<in> set ops \<Longrightarrow> P [Next_op op]"
  shows "emits P w (for_ops self ops w)"
  using assms(4,5)
proof (induction ops arbitrary: w)
  case Nil
  then show ?case using assms(1) by (simp add: emits_Return)
next
  case (Cons op ops)
  have "emits P (w\<lparr>op_completed := False, trace := trace w @ [Next_op op]\<rparr>)
          (for_ops self (op # ops) w)"
    unfolding for_ops.simps
    apply (rule emits_seq [OF assms(1)])
     apply (rule run_op_emits [OF assms(1-3)])
     apply (simp add: Cons.prems)
    apply (rule Cons.IH)
     apply (simp_all add: Cons.prems)
    done
  moreover have "P [Next_op op]" using Cons.prems(2) by simp
  ultimately show ?case using emits_prepend [OF assms(1)] by blast
qed

lemma iter_emits:
  assumes "closed P" "\<And>ae w. emits P w (checkpoint self ae w)"
    "\<And>op w. emits P w (validate self op w)"
    "\<And>op w. op \<in> set ops \<Longrightarrow> emits P w (loop_body self op w)"
    "\<And>op. op \<in> set ops \<Longrightarrow> P [Next_op op]"
  shows "emits P w (iter self ops w)"
proof -
  have t: "emits P w (try_body self ops w)"
    unfolding try_body_def
    apply (rule emits_seq [OF assms(1)])
     apply (simp add: assms emits_Return)
    apply (rule for_ops_emits [OF assms])
     apply simp_all
    done
  show ?thesis
  proof (cases "try_body self ops w")
    case (Return x w1)
    then show ?thesis using t by (simp add: iter_def emits_def)
  next
    case (Raise e w1)
    from t Raise obtain xs where xs: "trace w1 = trace w @ xs" "P xs"
      by (auto simp add: emits_def)
    have "emits P w1 (iter self ops w)"
      using Raise assms(1,2) by (simp add: iter_def emits_Return emits_Raise)
    then show ?thesis using xs assms(1) by (auto simp add: emits_def closed_def)
  qed
qed

subsection \<open>Evaluating a concrete run\<close>

lemmas run_simps = iter_def try_body_def run_op_def op_done_def loop_body_def op_loop.simps
  train_def validate_def checkpoint_def yield_and_await_response_def await_response_def
  check_for_preemption_def report_progress_def report_early_exit_def complete_def
  get_experiment_best_validation_def is_best_validation_def
  response_num_inputs_def response_searcher_metric_def
  batches_until_val_def batches_until_ckpt_def batches_until_op_complete_def as_batches_def
  checkpoint_is_current_def validation_is_current_def new_events_def
  example_self_def example_op_def example_world_def ok_result_def fresh_state_def
  SavableState_init_def sys_maxsize_def Let_def

lemma as_batches_absent: "as_batches conv None None None = Inl ValueError"
  by (simp add: as_batches_def)

lemma as_batches_Inr:
  assumes "as_batches conv b r ep = Inr v"
  shows "(\<forall>x. b = Some x \<longrightarrow> v = x)
       \<and> (\<forall>x. r = Some x \<longrightarrow> v = max (x div global_batch_size conv) 1)
       \<and> (\<forall>x rpe. ep = Some x \<and> records_per_epoch conv = Some rpe \<longrightarrow>
            v = max ((x * rpe) div global_batch_size conv) 1)"
  using assms
  by (auto simp add: as_batches_def check_gt_def split: if_splits option.splits)

subsection \<open>The periods computed at construction\<close>

text \<open>
  Claim C10, as the code has it. A minimum validation or checkpoint period given in
  batches and below 1 is replaced by \<^verbatim>\<open>sys.maxsize\<close>, \<open>2 ^ 63 - 1\<close>; the action is then not
  due in any state in which fewer than \<open>2 ^ 63 - 1\<close> batches were trained since the last
  one. A period given in records or epochs converts to \<open>max \<dots> 1\<close>, at least one batch,
  and is kept as it is. A period with none of the three fields makes the construction
  raise.
\<close>

theorem init_periods:
  "(\<forall>self st. sequencer_init e = Inr (self, st) \<longrightarrow>
      (\<forall>b. spec_batches (min_validation_period e) = Some b \<and> b < 1 \<longrightarrow>
         min_val_period_batches self = 9223372036854775807
         \<and> (\<forall>s::SavableState. latest_batch s - last_val s < 9223372036854775807 \<longrightarrow>
              \<not> batches_until_val self s < 1))
      \<and> (\<forall>b. spec_batches (min_checkpoint_period e) = Some b \<and> b < 1 \<longrightarrow>
         min_ckpt_period_batches self = 9223372036854775807
         \<and> (\<forall>s::SavableState. latest_batch s - last_ckpt s < 9223372036854775807 \<longrightarrow>
              \<not> batches_until_ckpt self s < 1))
      \<and> (\<forall>r. spec_records (min_validation_period e) = Some r \<longrightarrow>
         min_val_period_batches self = max (r div env_global_batch_size e) 1)
      \<and> (\<forall>r. spec_records (min_checkpoint_period e) = Some r \<longrightarrow>
         min_ckpt_period_batches self = max (r div env_global_batch_size e) 1)
      \<and> (\<forall>ep rpe. spec_epochs (min_validation_period e) = Some ep
              \<and> env_records_per_epoch e = Some rpe \<longrightarrow>
         min_val_period_batches self = max ((ep * rpe) div env_global_batch_size e) 1)
      \<and> (\<forall>ep rpe. spec_epochs (min_checkpoint_period e) = Some ep
              \<and> env_records_per_epoch e = Some rpe \<longrightarrow>
         min_ckpt_period_batches self = max ((ep * rpe) div env_global_batch_size e) 1))
   \<and> (spec_batches (min_validation_period e) = None
        \<and> spec_records (min_validation_period e) = None
        \<and> spec_epochs (min_validation_period e) = None \<longrightarrow>
        sequencer_init e = Inl ValueError)
   \<and> (spec_batches (min_checkpoint_period e) = None
        \<and> spec_records (min_checkpoint_period e) = None
        \<and> spec_epochs (min_checkpoint_period e) = None \<longrightarrow>
        (\<exists>x. sequencer_init e = Inl x))"
proof (intro conjI allI impI)
  fix self st b
  assume i: "sequencer_init e = Inr (self, st)"
    and b: "spec_batches (min_validation_period e) = Some b \<and> b < 1"
  from i obtain v where v: "as_batches \<lparr>records_per_epoch = env_records_per_epoch e,
          global_batch_size = env_global_batch_size e\<rparr>
        (spec_batches (min_validation_period e)) (spec_records (min_validation_period e))
        (spec_epochs (min_validation_period e)) = Inr v"
    and p: "min_val_period_batches self = period_or_maxsize v"
    by (auto simp add: sequencer_init_def Let_def split: sum.splits)
  from as_batches_Inr [OF v] b have "v = b" by simp
  then show m: "min_val_period_batches self = 9223372036854775807"
    using p b by (simp add: period_or_maxsize_def sys_maxsize_def)
  fix s :: SavableState assume "latest_batch s - last_val s < 9223372036854775807"
  then show "\<not> batches_until_val self s < 1" using m by (simp add: batches_until_val_def)
next
  fix self st b
  assume i: "sequencer_init e = Inr (self, st)"
    and b: "spec_batches (min_checkpoint_period e) = Some b \<and> b < 1"
  from i obtain v where v: "as_batches \<lparr>records_per_epoch = env_records_per_epoch e,
          global_batch_size = env_global_batch_size e\<rparr>
        (spec_batches (min_checkpoint_period e)) (spec_records (min_checkpoint_period e))
        (spec_epochs (min_checkpoint_period e)) = Inr v"
    and p: "min_ckpt_period_batches self = period_or_maxsize v"
    by (auto simp add: sequencer_init_def Let_def split: sum.splits)
  from as_batches_Inr [OF v] b have "v = b" by simp
  then show m: "min_ckpt_period_batches self = 9223372036854775807"
    using p b by (simp add: period_or_maxsize_def sys_maxsize_def)
  fix s :: SavableState assume "latest_batch s - last_ckpt s < 9223372036854775807"
  then show "\<not> batches_until_ckpt self s < 1" using m by (simp add: batches_until_ckpt_def)
next
  fix self st r
  assume i: "sequencer_init e = Inr (self, st)"
    and r: "spec_records (min_validation_period e) = Some r"
  from i obtain v where v: "as_batches \<lparr>records_per_epoch = env_records_per_epoch e,
          global_batch_size = env_global_batch_size e\<rparr>
        (spec_batches (min_validation_period e)) (spec_records (min_validation_period e))
        (spec_epochs (min_validation_period e)) = Inr v"
    and p: "min_val_period_batches self = period_or_maxsize v"
    by (auto simp add: sequencer_init_def Let_def split: sum.splits)
  from as_batches_Inr [OF v] r have "v = max (r div env_global_batch_size e) 1" by simp
  then show "min_val_period_batches self = max (r div env_global_batch_size e) 1"
    using p by (simp add: period_or_maxsize_def)
next
  fix self st r
  assume i: "sequencer_init e = Inr (self, st)"
    and r: "spec_records (min_checkpoint_period e) = Some r"
  from i obtain v where v: "as_batches \<lparr>records_per_epoch = env_records_per_epoch e,
          global_batch_size = env_global_batch_size e\<rparr>
        (spec_batches (min_checkpoint_period e)) (spec_records (min_checkpoint_period e))
        (spec_epochs (min_checkpoint_period e)) = Inr v"
    and p: "min_ckpt_period_batches self = period_or_maxsize v"
    by (auto simp add: sequencer_init_def Let_def split: sum.splits)
  from as_batches_Inr [OF v] r have "v = max (r div env_global_batch_size e) 1" by simp
  then show "min_ckpt_period_batches self = max (r div env_global_batch_size e) 1"
    using p by (simp add: period_or_maxsize_def)
next
  fix self st ep rpe
  assume i: "sequencer_init e = Inr (self, st)"
    and r: "spec_epochs (min_validation_period e) = Some ep \<and> env_records_per_epoch e = Some rpe"
  from i obtain v where v: "as_batches \<lparr>records_per_epoch = env_records_per_epoch e,
          global_batch_size = env_global_batch_size e\<rparr>
        (spec_batches (min_validation_period e)) (spec_records (min_validation_period e))
        (spec_epochs (min_validation_period e)) = Inr v"
    and p: "min_val_period_batches self = period_or_maxsize v"
    by (auto simp add: sequencer_init_def Let_def split: sum.splits)
  from as_batches_Inr [OF v] r have "v = max ((ep * rpe) div env_global_batch_size e) 1"
    by simp
  then show "min_val_period_batches self = max ((ep * rpe) div env_global_batch_size e) 1"
    using p by (simp add: period_or_maxsize_def)
next
  fix self st ep rpe
  assume i: "sequencer_init e = Inr (self, st)"
    and r: "spec_epochs (min_checkpoint_period e) = Some ep \<and> env_records_per_epoch e = Some rpe"
  from i obtain v where v: "as_batches \<lparr>records_per_epoch = env_records_per_epoch e,
          global_batch_size = env_global_batch_size e\<rparr>
        (spec_batches (min_checkpoint_period e)) (spec_records (min_checkpoint_period e))
        (spec_epochs (min_checkpoint_period e)) = Inr v"
    and p: "min_ckpt_period_batches self = period_or_maxsize v"
    by (auto simp add: sequencer_init_def Let_def split: sum.splits)
  from as_batches_Inr [OF v] r have "v = max ((ep * rpe) div env_global_batch_size e) 1"
    by simp
  then show "min_ckpt_period_batches self = max ((ep * rpe) div env_global_batch_size e) 1"
    using p by (simp add: period_or_maxsize_def)
next
  assume "spec_batches (min_validation_period e) = None
        \<and> spec_records (min_validation_period e) = None
        \<and> spec_epochs (min_validation_period e) = None"
  then show "sequencer_init e = Inl ValueError"
    by (simp add: sequencer_init_def Let_def as_batches_absent)
next
  assume "spec_batches (min_checkpoint_period e) = None
        \<and> spec_records (min_checkpoint_period e) = None
        \<and> spec_epochs (min_checkpoint_period e) = None"
  then show "\<exists>x. sequencer_init e = Inl x"
    by (simp add: sequencer_init_def Let_def as_batches_absent split: sum.splits)
qed

lemma records_init:
  "sequencer_init records_env = Inr (example_self\<lparr>min_val_period_batches := 1\<rparr>, fresh_state 7)"
  by (simp add: sequencer_init_def records_env_def example_env_def example_self_def
      fresh_state_def as_batches_def check_gt_def period_or_maxsize_def Let_def)

text \<open>
  Claim C10, as stated, fails: a period of 0 records is not disabled but becomes a period
  of one batch, so that a validation is due after every batch; an absent period makes the
  construction raise \<open>ValueError\<close>; and with \<^verbatim>\<open>sys.maxsize\<close> as its period a validation is
  due once \<open>2 ^ 63 - 1\<close> batches were trained.
\<close>

theorem periods_not_disabled_counterexample:
  "spec_records (min_validation_period records_env) = Some 0
   \<and> sequencer_init records_env
       = Inr (example_self\<lparr>min_val_period_batches := 1\<rparr>, fresh_state 7)
   \<and> batches_until_val (example_self\<lparr>min_val_period_batches := 1\<rparr>)
        ((fresh_state 7)\<lparr>latest_batch := 1\<rparr>) < 1
   \<and> sequencer_init absent_env = Inl ValueError
   \<and> spec_batches (min_validation_period example_env) = Some 0
   \<and> sequencer_init example_env = Inr (example_self, fresh_state 7)
   \<and> batches_until_val example_self ((fresh_state 7)\<lparr>latest_batch := 9223372036854775807\<rparr>) < 1"
  using records_init example_init
  by (simp add: records_env_def absent_env_def example_env_def example_self_def fresh_state_def
      SavableState_init_def batches_until_val_def sequencer_init_def as_batches_def Let_def
      sys_maxsize_def)

lemma epochs_init:
  "sequencer_init epochs_env
   = Inr (example_self\<lparr>min_val_period_batches := 20, min_ckpt_period_batches := sys_maxsize\<rparr>,
          fresh_state 7)"
  by (simp add: sequencer_init_def epochs_env_def example_env_def example_self_def
      fresh_state_def as_batches_def check_gt_def period_or_maxsize_def Let_def)

lemma checkpoint_records_init:
  "sequencer_init checkpoint_records_env
   = Inr (example_self\<lparr>min_ckpt_period_batches := 3\<rparr>, fresh_state 7)"
  by (simp add: sequencer_init_def checkpoint_records_env_def example_env_def example_self_def
      fresh_state_def as_batches_def check_gt_def period_or_maxsize_def Let_def)

theorem init_periods_witness:
  "sequencer_init example_env = Inr (example_self, fresh_state 7)
   \<and> spec_batches (min_validation_period example_env) = Some 0
   \<and> min_val_period_batches example_self = 9223372036854775807
   \<and> latest_batch (fresh_state 7) - last_val (fresh_state 7) < 9223372036854775807
   \<and> \<not> batches_until_val example_self (fresh_state 7) < 1
   \<and> spec_records (min_validation_period records_env) = Some 0
   \<and> sequencer_init records_env
       = Inr (example_self\<lparr>min_val_period_batches := 1\<rparr>, fresh_state 7)
   \<and> min_val_period_batches (example_self\<lparr>min_val_period_batches := 1\<rparr>)
       = max (0 div env_global_batch_size records_env) 1
   \<and> spec_epochs (min_validation_period epochs_env) = Some 2
   \<and> env_records_per_epoch epochs_env = Some 100
   \<and> spec_batches (min_checkpoint_period epochs_env) = Some 0
   \<and> min_val_period_batches
        (example_self\<lparr>min_val_period_batches := 20, min_ckpt_period_batches := sys_maxsize\<rparr>)
       = max ((2 * 100) div env_global_batch_size epochs_env) 1
   \<and> min_ckpt_period_batches
        (example_self\<lparr>min_val_period_batches := 20, min_ckpt_period_batches := sys_maxsize\<rparr>)
       = 9223372036854775807
   \<and> \<not> batches_until_ckpt
          (example_self\<lparr>min_val_period_batches := 20, min_ckpt_period_batches := sys_maxsize\<rparr>)
          (fresh_state 7) < 1
   \<and> spec_records (min_checkpoint_period checkpoint_records_env) = Some 30
   \<and> min_ckpt_period_batches (example_self\<lparr>min_ckpt_period_batches := 3\<rparr>)
       = max (30 div env_global_batch_size checkpoint_records_env) 1
   \<and> sequencer_init absent_env = Inl ValueError
   \<and> (\<exists>x. sequencer_init checkpoint_absent_env = Inl x)"
proof -
  have f: "latest_batch (fresh_state 7) - last_val (fresh_state 7) < 9223372036854775807"
    "latest_batch (fresh_state 7) - last_ckpt (fresh_state 7) < 9223372036854775807"
    by (simp_all add: fresh_state_def SavableState_init_def)
  have e: "spec_batches (min_validation_period example_env) = Some 0 \<and> (0::int) < 1"
    by (simp add: example_env_def)
  have r: "spec_records (min_validation_period records_env) = Some 0"
    by (simp add: records_env_def)
  have p: "spec_epochs (min_validation_period epochs_env) = Some 2
      \<and> env_records_per_epoch epochs_env = Some 100"
    "spec_batches (min_checkpoint_period epochs_env) = Some 0 \<and> (0::int) < 1"
    by (simp_all add: epochs_env_def example_env_def)
  have c: "spec_records (min_checkpoint_period checkpoint_records_env) = Some 30"
    by (simp add: checkpoint_records_env_def)
  have a: "spec_batches (min_validation_period absent_env) = None
        \<and> spec_records (min_validation_period absent_env) = None
        \<and> spec_epochs (min_validation_period absent_env) = None"
    "spec_batches (min_checkpoint_period checkpoint_absent_env) = None
        \<and> spec_records (min_checkpoint_period checkpoint_absent_env) = None
        \<and> spec_epochs (min_checkpoint_period checkpoint_absent_env) = None"
    by (simp_all add: absent_env_def checkpoint_absent_env_def)
  note t1 = init_periods [of example_env, THEN conjunct1, rule_format, OF example_init]
  note t2 = init_periods [of records_env, THEN conjunct1, rule_format, OF records_init]
  note t3 = init_periods [of epochs_env, THEN conjunct1, rule_format, OF epochs_init]
  note t4 = init_periods [of checkpoint_records_env, THEN conjunct1, rule_format,
      OF checkpoint_records_init]
  have 1: "min_val_period_batches example_self = 9223372036854775807"
    "\<not> batches_until_val example_self (fresh_state 7) < 1"
    using t1 e f by blast+
  have 2: "min_val_period_batches (example_self\<lparr>min_val_period_batches := 1\<rparr>)
       = max (0 div env_global_batch_size records_env) 1"
    using t2 r by blast
  have 3: "min_val_period_batches
        (example_self\<lparr>min_val_period_batches := 20, min_ckpt_period_batches := sys_maxsize\<rparr>)
       = max ((2 * 100) div env_global_batch_size epochs_env) 1"
    "min_ckpt_period_batches
        (example_self\<lparr>min_val_period_batches := 20, min_ckpt_period_batches := sys_maxsize\<rparr>)
       = 9223372036854775807"
    "\<not> batches_until_ckpt
          (example_self\<lparr>min_val_period_batches := 20, min_ckpt_period_batches := sys_maxsize\<rparr>)
          (fresh_state 7) < 1"
    using t3 p f by blast+
  have 4: "min_ckpt_period_batches (example_self\<lparr>min_ckpt_period_batches := 3\<rparr>)
       = max (30 div env_global_batch_size checkpoint_records_env) 1"
    using t4 c by blast
  have 5: "sequencer_init absent_env = Inl ValueError"
    "\<exists>x. sequencer_init checkpoint_absent_env = Inl x"
    using init_periods [of absent_env] init_periods [of checkpoint_absent_env] a
    by blast+
  show ?thesis
    using example_init records_init e r p c f 1 2 3 4 5 by simp
qed

lemma load_state_counters_ok:
  "counters_ok s \<Longrightarrow> snapshot_counters_ok snap \<Longrightarrow> counters_ok (load_state self snap s)"
  by (auto simp add: counters_ok_def snapshot_counters_ok_def load_state_def
      SavableState_init_def Let_def)

lemma step_counters_ok:
  assumes "step self a s s'" "counters_ok s" "admissible a"
  shows "counters_ok s' \<and> (\<not> is_load_state a \<longrightarrow> latest_batch s \<le> latest_batch s')"
  using assms
proof (induction rule: step.induct)
  case (step_load self snap s)
  then show ?case using load_state_counters_ok by simp
next
  case (step_train self n op w)
  then show ?case using train_state [of self n op w] by (auto simp add: counters_ok_def)
next
  case (step_validate self op w)
  then show ?case using validate_effect [of self op w]
    by (auto simp add: counters_ok_def validate_post_def)
next
  case (step_checkpoint self ae w)
  then show ?case using checkpoint_state [of self ae w] by (auto simp add: counters_ok_def)
qed

lemma reachable_counters_ok: "reachable self s \<Longrightarrow> counters_ok s"
proof (induction rule: reachable.induct)
  case (construction self)
  then show ?case by (simp add: counters_ok_def fresh_state_def SavableState_init_def)
next
  case (operation self s a s')
  then show ?case using step_counters_ok by blast
qed

subsection \<open>The counters\<close>

text \<open>
  Claim C1, as the code has it. In every state that the construction and a sequence of
  operations reach (\<open>load_state\<close> of a snapshot whose own counters satisfy the two
  inequalities, \<open>train\<close> of no negative number of batches, \<open>validate\<close>, \<open>checkpoint\<close>),
  \<open>last_ckpt \<le> latest_batch\<close> and \<open>last_val \<le> latest_batch\<close>, and none of these \<open>train\<close>,
  \<open>validate\<close> and \<open>checkpoint\<close> decreases \<open>latest_batch\<close>. \<open>load_state\<close> leaves
  \<open>latest_batch\<close> alone or sets it to the value of the snapshot (0 when the snapshot has
  none).
\<close>

theorem counters_invariant:
  assumes "reachable self s"
  shows "last_ckpt s \<le> latest_batch s \<and> last_val s \<le> latest_batch s
       \<and> (\<forall>a s'. step self a s s' \<and> admissible a \<and> \<not> is_load_state a
            \<longrightarrow> latest_batch s \<le> latest_batch s')
       \<and> (\<forall>snap. latest_batch (load_state self snap s) = latest_batch s
                \<or> snap_trial_id snap = Some (self_trial_id self)
                  \<and> latest_batch (load_state self snap s)
                      = (case snap_latest_batch snap of None \<Rightarrow> 0 | Some b \<Rightarrow> b))"
proof -
  have ok: "counters_ok s" using assms by (rule reachable_counters_ok)
  have a: "\<forall>a s'. step self a s s' \<and> admissible a \<and> \<not> is_load_state a
            \<longrightarrow> latest_batch s \<le> latest_batch s'"
    using step_counters_ok ok by blast
  have b: "\<forall>snap. latest_batch (load_state self snap s) = latest_batch s
                \<or> snap_trial_id snap = Some (self_trial_id self)
                  \<and> latest_batch (load_state self snap s)
                      = (case snap_latest_batch snap of None \<Rightarrow> 0 | Some b \<Rightarrow> b)"
    by (auto simp add: load_state_def SavableState_init_def Let_def)
  from ok a b show ?thesis by (simp add: counters_ok_def)
qed

lemma example_train:
  "state (world_of (train example_self 1 example_op example_world)) = trained_state"
  by (simp add: run_simps trained_state_def)

lemma example_train_negative:
  "state (world_of (train example_self (- 1) example_op example_world))
   = \<lparr>trial_id = 7, last_ckpt = 0, latest_batch = - 1, total_records = Some 50,
      step_id = 1, last_val = 0\<rparr>"
  by (simp add: run_simps)

lemma example_checkpoint:
  "state (world_of (checkpoint example_self False
            (world_of (train example_self 1 example_op example_world))))
   = trained_state\<lparr>last_ckpt := 1\<rparr>"
  by (simp add: run_simps trained_state_def)

lemma reachable_fresh: "reachable example_self (fresh_state 7)"
  using construction [of example_self] by (simp add: example_self_def)

lemma step_example_train: "step example_self (Train 1 example_op) (fresh_state 7) trained_state"
  using step_train [of example_self 1 example_op example_world]
  by (simp add: example_train) (simp add: example_world_def)

lemma reachable_trained: "reachable example_self trained_state"
  using operation [OF reachable_fresh step_example_train] by simp

lemma step_example_checkpoint:
  "step example_self (Checkpoint False) trained_state (trained_state\<lparr>last_ckpt := 1\<rparr>)"
  using step_checkpoint [of example_self False
      "world_of (train example_self 1 example_op example_world)"]
  by (simp add: example_checkpoint example_train)

theorem counters_invariant_witness:
  "reachable example_self trained_state
   \<and> last_ckpt trained_state \<le> latest_batch trained_state
   \<and> last_val trained_state \<le> latest_batch trained_state
   \<and> step example_self (Checkpoint False) trained_state (trained_state\<lparr>last_ckpt := 1\<rparr>)
   \<and> admissible (Checkpoint False) \<and> \<not> is_load_state (Checkpoint False)
   \<and> latest_batch trained_state \<le> latest_batch (trained_state\<lparr>last_ckpt := 1\<rparr>)"
proof -
  note t = counters_invariant [OF reachable_trained]
  have "latest_batch trained_state \<le> latest_batch (trained_state\<lparr>last_ckpt := 1\<rparr>)"
    using t step_example_checkpoint by (metis admissible.simps(4) is_load_state.simps(4))
  then show ?thesis using t reachable_trained step_example_checkpoint by simp
qed

text \<open>
  Claim C1, as stated, fails. On the freshly constructed state, \<open>load_state\<close> of a snapshot
  with \<open>last_ckpt = 5\<close>, \<open>last_val = 3\<close> and no \<open>latest_batch\<close> gives \<open>latest_batch = 0\<close> below
  both. After one batch was trained, \<open>load_state\<close> of the snapshot of the fresh state
  takes \<open>latest_batch\<close> from 1 back to 0. And \<open>train\<close> of \<open>- 1\<close> batches takes \<open>latest_batch\<close>
  from 0 to \<open>- 1\<close>, below \<open>last_ckpt\<close>.
\<close>

theorem counters_counterexample:
  "step example_self (Load_state bad_snapshot) (fresh_state 7)
     \<lparr>trial_id = 7, last_ckpt = 5, latest_batch = 0, total_records = Some 0,
      step_id = 0, last_val = 3\<rparr>
   \<and> reachable example_self trained_state
   \<and> step example_self (Load_state (get_state (fresh_state 7))) trained_state (fresh_state 7)
   \<and> latest_batch (fresh_state 7) < latest_batch trained_state
   \<and> step example_self (Train (- 1) example_op) (fresh_state 7)
       \<lparr>trial_id = 7, last_ckpt = 0, latest_batch = - 1, total_records = Some 50,
        step_id = 1, last_val = 0\<rparr>
   \<and> latest_batch (fresh_state 7) = 0"
proof -
  have "load_state example_self bad_snapshot (fresh_state 7)
      = \<lparr>trial_id = 7, last_ckpt = 5, latest_batch = 0, total_records = Some 0,
         step_id = 0, last_val = 3\<rparr>"
    by (simp add: load_state_def bad_snapshot_def fresh_state_def SavableState_init_def
        example_self_def)
  then have 1: "step example_self (Load_state bad_snapshot) (fresh_state 7)
     \<lparr>trial_id = 7, last_ckpt = 5, latest_batch = 0, total_records = Some 0,
      step_id = 0, last_val = 3\<rparr>"
    using step_load [of example_self bad_snapshot "fresh_state 7"] by simp
  have "load_state example_self (get_state (fresh_state 7)) trained_state = fresh_state 7"
    by (simp add: load_state_def get_state_def fresh_state_def SavableState_init_def
        example_self_def)
  then have 2: "step example_self (Load_state (get_state (fresh_state 7))) trained_state
      (fresh_state 7)"
    using step_load [of example_self "get_state (fresh_state 7)" trained_state] by simp
  have 3: "step example_self (Train (- 1) example_op) (fresh_state 7)
       \<lparr>trial_id = 7, last_ckpt = 0, latest_batch = - 1, total_records = Some 50,
        step_id = 1, last_val = 0\<rparr>"
    using step_train [of example_self "- 1" example_op example_world]
    by (simp add: example_train_negative) (simp add: example_world_def)
  show ?thesis using 1 2 3 reachable_trained
    by (simp add: trained_state_def fresh_state_def SavableState_init_def)
qed

lemma handed_out_append [simp]: "handed_out (xs @ ys) = handed_out xs @ handed_out ys"
  by (induction xs rule: handed_out.induct) simp_all

lemma handed_out_op_events: "handed_out (op_events evs) = handed_out evs"
  by (induction evs rule: op_events.induct) simp_all

lemma handed_out_Nil: "op_events evs = [] \<Longrightarrow> handed_out evs = []"
  using handed_out_op_events [of evs] by simp

lemma chunks_ok_append:
  "handed_out xs = [] \<Longrightarrow>
   chunks_ok self cur (xs @ ys) \<longleftrightarrow> chunks_ok self cur xs \<and> chunks_ok self cur ys"
  by (induction self cur xs rule: chunks_ok.induct) auto

lemma chunks_ok_then:
  "chunks_ok self cur xs \<Longrightarrow> (\<forall>c. chunks_ok self c ys) \<Longrightarrow> chunks_ok self cur (xs @ ys)"
  by (induction self cur xs rule: chunks_ok.induct) auto

lemma chunks_ok_no_train:
  "\<forall>e\<in>set evs. \<not> train_event e \<Longrightarrow> chunks_ok self cur evs"
  by (induction self cur evs rule: chunks_ok.induct) auto

lemma chunks_ok_trains_ok:
  "handed_out evs = [] \<Longrightarrow> trains_ok self {op} evs \<Longrightarrow> chunks_ok self (Some op) evs"
proof (induction evs)
  case Nil
  then show ?case by simp
next
  case (Cons e evs)
  then have "trains_ok self {op} evs"
    using trains_ok_append [of self "{op}" "[e]" evs] by simp
  then show ?case using Cons by (cases e) (auto simp add: trains_ok_def)
qed

lemma closed_quiet: "closed (quiet self op)"
  by (simp add: closed_def quiet_def trains_ok_append)

lemma validate_quiet: "emits (quiet self op) w (validate self o' w)"
proof -
  from validate_effect [of self o' w] obtain evs where
    t: "trace (world_of (validate self o' w))
       = trace w @ Yield (validate_workload self (state w)) (state w) # evs"
    and n: "\<forall>e\<in>set evs. \<not> train_event e"
    and o: "op_events evs = [] \<or> (\<exists>c m. op_events evs = [Complete c m])"
    by (auto simp add: validate_post_def)
  from o have "handed_out (op_events evs) = []" by auto
  then have h: "handed_out (Yield (validate_workload self (state w)) (state w) # evs) = []"
    by (simp add: handed_out_op_events)
  from n have "\<forall>e\<in>set (Yield (validate_workload self (state w)) (state w) # evs).
      \<not> train_event e"
    by (simp add: validate_workload_def)
  then have "trains_ok self {op} (Yield (validate_workload self (state w)) (state w) # evs)"
    by (rule trains_ok_no_train)
  then show ?thesis using t h unfolding emits_def quiet_def by blast
qed

lemma checkpoint_quiet: "emits (quiet self op) w (checkpoint self ae w)"
proof -
  from checkpoint_effect [of self ae w] obtain evs where
    t: "trace (world_of (checkpoint self ae w))
       = trace w @ Yield (checkpoint_workload self (state w))
                     ((state w)\<lparr>last_ckpt := latest_batch (state w)\<rparr>) # evs"
    and n: "\<forall>e\<in>set evs. \<not> train_event e" and o: "op_events evs = []"
    by auto
  from o have "handed_out (op_events evs) = []" by simp
  then have h: "handed_out (Yield (checkpoint_workload self (state w))
                     ((state w)\<lparr>last_ckpt := latest_batch (state w)\<rparr>) # evs) = []"
    by (simp add: handed_out_op_events)
  from n have "\<forall>e\<in>set (Yield (checkpoint_workload self (state w))
                     ((state w)\<lparr>last_ckpt := latest_batch (state w)\<rparr>) # evs). \<not> train_event e"
    by (simp add: checkpoint_workload_def)
  then have "trains_ok self {op} (Yield (checkpoint_workload self (state w))
                     ((state w)\<lparr>last_ckpt := latest_batch (state w)\<rparr>) # evs)"
    by (rule trains_ok_no_train)
  then show ?thesis using t h unfolding emits_def quiet_def by blast
qed

lemma train_handed_out:
  "\<exists>evs. trace (world_of (train self n op w)) = trace w @ evs \<and> handed_out evs = []"
proof -
  from train_effect [of self n op w] obtain evs where
    t: "trace (world_of (train self n op w))
           = trace w @ Yield (train_workload self n (state w)) (state w) # evs"
    and o: "op_events evs = []" by auto
  from o have "handed_out (op_events evs) = []" by simp
  then have "handed_out (Yield (train_workload self n (state w)) (state w) # evs) = []"
    by (simp add: handed_out_op_events)
  then show ?thesis using t by blast
qed

lemma loop_body_handed_out:
  "\<exists>evs. trace (world_of (loop_body self op w)) = trace w @ evs \<and> handed_out evs = []"
proof -
  let ?H = "\<lambda>evs. handed_out evs = []"
  have cl: "closed ?H" by (simp add: closed_def)
  have v: "\<And>w. emits ?H w (validate self (Some op) w)"
    using validate_quiet [of self op _ "Some op"] by (auto simp add: emits_def quiet_def)
  have c: "\<And>w. emits ?H w (checkpoint self False w)"
    using checkpoint_quiet [of self op _ False] by (auto simp add: emits_def quiet_def)
  have t: "\<And>n w. emits ?H w (train self n op w)"
    using train_handed_out by (simp add: emits_def)
  have "emits ?H w (loop_body self op w)"
    unfolding loop_body_def
    apply (rule emits_seq [OF cl])
     apply (simp add: v emits_Return [OF cl])
    apply (rule emits_seq [OF cl])
     apply (simp add: c emits_Return [OF cl])
    apply (simp add: t emits_Raise [OF cl] split: sum.splits)
    done
  then show ?thesis by (simp add: emits_def)
qed

lemma loop_body_quiet: "emits (quiet self op) w (loop_body self op w)"
  using loop_body_handed_out [of self op w] loop_body_trains_ok [of self op w]
  by (auto simp add: emits_def quiet_def)

lemma run_op_quiet: "emits (quiet self op) w (run_op self op w)"
  by (rule run_op_emits [OF closed_quiet checkpoint_quiet validate_quiet loop_body_quiet])

lemma for_ops_chunks_ok:
  "\<exists>evs. trace (world_of (for_ops self ops w)) = trace w @ evs
     \<and> (\<forall>cur. chunks_ok self cur evs) \<and> set (handed_out evs) \<subseteq> set ops"
proof (induction ops arbitrary: w)
  case Nil
  then show ?case by simp
next
  case (Cons op ops)
  let ?w0 = "w\<lparr>op_completed := False, trace := trace w @ [Next_op op]\<rparr>"
  from run_op_quiet [of self op ?w0] obtain e1 where
    e1: "trace (world_of (run_op self op ?w0)) = trace w @ Next_op op # e1"
      "handed_out e1 = []" "trains_ok self {op} e1"
    by (auto simp add: emits_def quiet_def)
  then have c1: "chunks_ok self (Some op) e1" using chunks_ok_trains_ok by blast
  show ?case
  proof (cases "run_op self op ?w0")
    case (Raise e w1)
    then have "trace (world_of (for_ops self (op # ops) w)) = trace w @ Next_op op # e1"
      using e1 by simp
    then show ?thesis using c1 e1(2) by auto
  next
    case (Return x w1)
    from Cons.IH [of w1] obtain e2 where
      e2: "trace (world_of (for_ops self ops w1)) = trace w1 @ e2"
        "\<forall>cur. chunks_ok self cur e2" "set (handed_out e2) \<subseteq> set ops"
      by blast
    have "trace (world_of (for_ops self (op # ops) w)) = trace w @ Next_op op # (e1 @ e2)"
      using Return e1 e2 by simp
    moreover have "\<forall>cur. chunks_ok self cur (Next_op op # (e1 @ e2))"
      using c1 e1(2) e2(2) by (simp add: chunks_ok_append)
    moreover have "set (handed_out (Next_op op # (e1 @ e2))) \<subseteq> set (op # ops)"
      using e1(2) e2(3) by auto
    ultimately show ?thesis by blast
  qed
qed

lemma iter_chunks_ok:
  "chunks_ok self None (new_events w (world_of (iter self ops w)))
   \<and> set (handed_out (new_events w (world_of (iter self ops w)))) \<subseteq> set ops"
proof -
  text \<open>The validation before the first operation.\<close>
  let ?I = "if want_initial_val self \<and> val_from_previous_run self = None
               \<and> latest_batch (state w) = 0
            then validate self None w else Return () w"
  have "\<exists>e0. trace (world_of ?I) = trace w @ e0 \<and> handed_out e0 = []
      \<and> (\<forall>e\<in>set e0. \<not> train_event e)"
  proof (cases "want_initial_val self \<and> val_from_previous_run self = None
               \<and> latest_batch (state w) = 0")
    case True
    from validate_effect [of self None w] obtain evs where
      "trace (world_of (validate self None w))
         = trace w @ Yield (validate_workload self (state w)) (state w) # evs"
      "\<forall>e\<in>set evs. \<not> train_event e" "op_events evs = []"
      by (auto simp add: validate_post_def)
    moreover from this have "handed_out evs = []" by (simp add: handed_out_Nil)
    ultimately show ?thesis using True
      by (intro exI [of _ "Yield (validate_workload self (state w)) (state w) # evs"])
        (simp add: validate_workload_def)
  next
    case False
    then have "?I = Return () w" by auto
    then show ?thesis by simp
  qed
  then obtain e0 where e0: "trace (world_of ?I) = trace w @ e0" "handed_out e0 = []"
    "\<forall>e\<in>set e0. \<not> train_event e" by blast
  have c0: "\<And>cur. chunks_ok self cur e0" using e0(3) by (rule chunks_ok_no_train)
  text \<open>The body of the try statement.\<close>
  have "\<exists>evs. trace (world_of (try_body self ops w)) = trace w @ evs
      \<and> (\<forall>cur. chunks_ok self cur evs) \<and> set (handed_out evs) \<subseteq> set ops"
  proof (cases ?I)
    case (Raise e w1)
    then have "try_body self ops w = Raise e w1" by (simp add: try_body_def)
    then show ?thesis using e0 c0 Raise by auto
  next
    case (Return x w1)
    then have t: "try_body self ops w = for_ops self ops w1" by (simp add: try_body_def)
    from for_ops_chunks_ok [of self ops w1] obtain e1 where
      e1: "trace (world_of (for_ops self ops w1)) = trace w1 @ e1"
        "\<forall>cur. chunks_ok self cur e1" "set (handed_out e1) \<subseteq> set ops"
      by blast
    have "trace (world_of (try_body self ops w)) = trace w @ (e0 @ e1)"
      using t e0 e1 Return by simp
    moreover have "\<forall>cur. chunks_ok self cur (e0 @ e1)"
      using e0(2) c0 e1(2) by (simp add: chunks_ok_append)
    moreover have "set (handed_out (e0 @ e1)) \<subseteq> set ops" using e0(2) e1(3) by simp
    ultimately show ?thesis by blast
  qed
  then obtain et where et: "trace (world_of (try_body self ops w)) = trace w @ et"
    "\<forall>cur. chunks_ok self cur et" "set (handed_out et) \<subseteq> set ops" by blast
  text \<open>The handler.\<close>
  have "\<exists>ef. trace (world_of (iter self ops w)) = trace (world_of (try_body self ops w)) @ ef
      \<and> handed_out ef = [] \<and> (\<forall>e\<in>set ef. \<not> train_event e)"
  proof (cases "try_body self ops w")
    case (Return x w1)
    then show ?thesis by (simp add: iter_def)
  next
    case (Raise e w1)
    show ?thesis
    proof (cases "e = ShouldExit \<and> \<not> checkpoint_is_current (state w1)")
      case False
      then show ?thesis using Raise by (auto simp add: iter_def)
    next
      case True
      then have i: "iter self ops w = checkpoint self True w1"
        using Raise by (simp add: iter_def)
      from checkpoint_effect [of self True w1] obtain evs where
        "trace (world_of (checkpoint self True w1))
           = trace w1 @ Yield (checkpoint_workload self (state w1))
                         ((state w1)\<lparr>last_ckpt := latest_batch (state w1)\<rparr>) # evs"
        "\<forall>e\<in>set evs. \<not> train_event e" "op_events evs = []"
        by auto
      moreover from this have "handed_out evs = []" by (simp add: handed_out_Nil)
      ultimately show ?thesis using i Raise
        by (intro exI [of _ "Yield (checkpoint_workload self (state w1))
                         ((state w1)\<lparr>last_ckpt := latest_batch (state w1)\<rparr>) # evs"])
          (simp add: checkpoint_workload_def)
    qed
  qed
  then obtain ef where ef: "trace (world_of (iter self ops w))
        = trace (world_of (try_body self ops w)) @ ef"
    "handed_out ef = []" "\<forall>e\<in>set ef. \<not> train_event e" by blast
  have cf: "\<And>cur. chunks_ok self cur ef" using ef(3) by (rule chunks_ok_no_train)
  have n: "new_events w (world_of (iter self ops w)) = et @ ef"
    using et(1) ef(1) by (simp add: new_events_def)
  text \<open>Reading \<open>et @ ef\<close>: the operation current at the end of \<open>et\<close> does not matter.\<close>
  have "\<And>cur. chunks_ok self cur (et @ ef)"
    using chunks_ok_then [of self _ et ef] et(2) cf by blast
  then show ?thesis using n et(3) ef(2) by simp
qed

lemma chunks_ok_current:
  "chunks_ok self cur (pre @ Yield wk s # post) \<Longrightarrow> kind wk = RUN_STEP \<Longrightarrow>
   (\<exists>pre1 op pre2. pre = pre1 @ Next_op op # pre2 \<and> handed_out pre2 = []
      \<and> train_chunk_ok self op wk s)
   \<or> (handed_out pre = [] \<and> (\<exists>op. cur = Some op \<and> train_chunk_ok self op wk s))"
proof (induction pre arbitrary: cur)
  case Nil
  then show ?case by (auto split: option.splits)
next
  case (Cons e pre)
  show ?case
  proof (cases e)
    case (Next_op o')
    then have "chunks_ok self (Some o') (pre @ Yield wk s # post)" using Cons.prems by simp
    from Cons.IH [OF this Cons.prems(2)] show ?thesis
    proof
      assume "\<exists>pre1 op pre2. pre = pre1 @ Next_op op # pre2 \<and> handed_out pre2 = []
          \<and> train_chunk_ok self op wk s"
      then obtain pre1 op pre2 where "pre = pre1 @ Next_op op # pre2" "handed_out pre2 = []"
        "train_chunk_ok self op wk s" by blast
      then have "e # pre = (e # pre1) @ Next_op op # pre2 \<and> handed_out pre2 = []
          \<and> train_chunk_ok self op wk s" by simp
      then show ?thesis by blast
    next
      assume "handed_out pre = [] \<and> (\<exists>op. Some o' = Some op \<and> train_chunk_ok self op wk s)"
      then have "e # pre = [] @ Next_op o' # pre \<and> handed_out pre = []
          \<and> train_chunk_ok self o' wk s" using Next_op by simp
      then show ?thesis by blast
    qed
  next
    case (Yield wk' s')
    then have "chunks_ok self cur (pre @ Yield wk s # post)" using Cons.prems by simp
    from Cons.IH [OF this Cons.prems(2)] show ?thesis
    proof
      assume "\<exists>pre1 op pre2. pre = pre1 @ Next_op op # pre2 \<and> handed_out pre2 = []
          \<and> train_chunk_ok self op wk s"
      then obtain pre1 op pre2 where "pre = pre1 @ Next_op op # pre2" "handed_out pre2 = []"
        "train_chunk_ok self op wk s" by blast
      then have "e # pre = (e # pre1) @ Next_op op # pre2 \<and> handed_out pre2 = []
          \<and> train_chunk_ok self op wk s" by simp
      then show ?thesis by blast
    next
      assume "handed_out pre = [] \<and> (\<exists>op. cur = Some op \<and> train_chunk_ok self op wk s)"
      then show ?thesis using Yield by simp
    qed
  next
    case (Resume k r)
    then have "chunks_ok self cur (pre @ Yield wk s # post)" using Cons.prems by simp
    from Cons.IH [OF this Cons.prems(2)] show ?thesis
    proof
      assume "\<exists>pre1 op pre2. pre = pre1 @ Next_op op # pre2 \<and> handed_out pre2 = []
          \<and> train_chunk_ok self op wk s"
      then obtain pre1 op pre2 where "pre = pre1 @ Next_op op # pre2" "handed_out pre2 = []"
        "train_chunk_ok self op wk s" by blast
      then have "e # pre = (e # pre1) @ Next_op op # pre2 \<and> handed_out pre2 = []
          \<and> train_chunk_ok self op wk s" by simp
      then show ?thesis by blast
    next
      assume "handed_out pre = [] \<and> (\<exists>op. cur = Some op \<and> train_chunk_ok self op wk s)"
      then show ?thesis using Resume by simp
    qed
  next
    case Early_exit
    then have "chunks_ok self cur (pre @ Yield wk s # post)" using Cons.prems by simp
    from Cons.IH [OF this Cons.prems(2)] show ?thesis
    proof
      assume "\<exists>pre1 op pre2. pre = pre1 @ Next_op op # pre2 \<and> handed_out pre2 = []
          \<and> train_chunk_ok self op wk s"
      then obtain pre1 op pre2 where "pre = pre1 @ Next_op op # pre2" "handed_out pre2 = []"
        "train_chunk_ok self op wk s" by blast
      then have "e # pre = (e # pre1) @ Next_op op # pre2 \<and> handed_out pre2 = []
          \<and> train_chunk_ok self op wk s" by simp
      then show ?thesis by blast
    next
      assume "handed_out pre = [] \<and> (\<exists>op. cur = Some op \<and> train_chunk_ok self op wk s)"
      then show ?thesis using Early_exit by simp
    qed
  next
    case (Complete o' m)
    then have "chunks_ok self cur (pre @ Yield wk s # post)" using Cons.prems by simp
    from Cons.IH [OF this Cons.prems(2)] show ?thesis
    proof
      assume "\<exists>pre1 op pre2. pre = pre1 @ Next_op op # pre2 \<and> handed_out pre2 = []
          \<and> train_chunk_ok self op wk s"
      then obtain pre1 op pre2 where "pre = pre1 @ Next_op op # pre2" "handed_out pre2 = []"
        "train_chunk_ok self op wk s" by blast
      then have "e # pre = (e # pre1) @ Next_op op # pre2 \<and> handed_out pre2 = []
          \<and> train_chunk_ok self op wk s" by simp
      then show ?thesis by blast
    next
      assume "handed_out pre = [] \<and> (\<exists>op. cur = Some op \<and> train_chunk_ok self op wk s)"
      then show ?thesis using Complete by simp
    qed
  qed
qed

subsection \<open>The size of a training step\<close>

text \<open>
  Claim C2. Every training workload in the trace of \<^verbatim>\<open>__iter__\<close> comes after the feed has
  handed out an operation; for the operation \<open>op\<close> handed out last before it (the one
  being processed), its \<open>num_batches\<close> is \<open>max 1 (min batches_until_ckpt (min
  batches_until_val (min batches_until_op_complete scheduling_unit)))\<close>, computed in the
  state in which it is yielded; so \<open>num_batches \<ge> 1\<close>. With periods of at least one batch,
  as \<^verbatim>\<open>__init__\<close> leaves them, neither validation nor checkpoint is due in that state.
\<close>

theorem train_num_batches:
  assumes "new_events w (world_of (iter self ops w)) = pre @ Yield wk s # post"
    and "kind wk = RUN_STEP"
  shows "\<exists>pre1 op pre2. pre = pre1 @ Next_op op # pre2 \<and> handed_out pre2 = [] \<and> op \<in> set ops
     \<and> (\<exists>b. batches_until_op_complete self op s = Inr b
           \<and> num_batches wk =
               max 1 (min (batches_until_ckpt self s) (min (batches_until_val self s)
                        (min b (scheduling_unit self)))))
     \<and> 1 \<le> num_batches wk
     \<and> (1 \<le> min_val_period_batches self \<and> 1 \<le> min_ckpt_period_batches self \<longrightarrow>
          \<not> batches_until_val self s < 1 \<and> \<not> batches_until_ckpt self s < 1)"
proof -
  note i = iter_chunks_ok [of self w ops]
  from i assms(1) have "chunks_ok self None (pre @ Yield wk s # post)" by simp
  from chunks_ok_current [OF this assms(2)] obtain pre1 op pre2 where
    p: "pre = pre1 @ Next_op op # pre2" "handed_out pre2 = []" "train_chunk_ok self op wk s"
    by auto
  have "op \<in> set (handed_out (new_events w (world_of (iter self ops w))))"
    using assms(1) p(1) by simp
  then have "op \<in> set ops" using i by blast
  then show ?thesis using p unfolding train_chunk_ok_def by blast
qed

theorem train_num_batches_witness:
  "new_events example_world (world_of (iter example_self [example_op] example_world))
     = [Next_op example_op]
       @ Yield \<lparr>kind = RUN_STEP, e_id = 1, t_id = 7, s_id = 1, num_batches = 5,
                 total_batches_processed = 0\<rparr> (fresh_state 7)
       # drop 2 (new_events example_world
                  (world_of (iter example_self [example_op] example_world)))
   \<and> kind \<lparr>kind = RUN_STEP, e_id = 1, t_id = 7, s_id = 1, num_batches = 5,
            total_batches_processed = 0\<rparr> = RUN_STEP
   \<and> batches_until_op_complete example_self example_op (fresh_state 7) = Inr 10
   \<and> (5::int) = max 1 (min (batches_until_ckpt example_self (fresh_state 7))
                   (min (batches_until_val example_self (fresh_state 7))
                      (min 10 (scheduling_unit example_self))))
   \<and> 1 \<le> min_val_period_batches example_self \<and> 1 \<le> min_ckpt_period_batches example_self
   \<and> \<not> batches_until_val example_self (fresh_state 7) < 1
   \<and> \<not> batches_until_ckpt example_self (fresh_state 7) < 1"
proof -
  have a: "new_events example_world (world_of (iter example_self [example_op] example_world))
     = [Next_op example_op]
       @ Yield \<lparr>kind = RUN_STEP, e_id = 1, t_id = 7, s_id = 1, num_batches = 5,
                 total_batches_processed = 0\<rparr> (fresh_state 7)
       # drop 2 (new_events example_world
                  (world_of (iter example_self [example_op] example_world)))"
    by (simp add: run_simps)
  have p: "1 \<le> min_val_period_batches example_self \<and> 1 \<le> min_ckpt_period_batches example_self"
    by (simp add: example_self_def sys_maxsize_def)
  from train_num_batches [OF a] p
  have "\<not> batches_until_val example_self (fresh_state 7) < 1
      \<and> \<not> batches_until_ckpt example_self (fresh_state 7) < 1"
    by auto
  then show ?thesis using a p
    by (simp add: example_self_def example_op_def fresh_state_def SavableState_init_def
        batches_until_op_complete_def batches_until_ckpt_def batches_until_val_def
        as_batches_def sys_maxsize_def)
qed











subsection \<open>Due validations and checkpoints\<close>



lemma example_world_kinds:
  "kinds_of (new_events example_world (world_of (loop_body example_self example_op example_world)))
   = [RUN_STEP]"
  by (simp add: run_simps)



subsection \<open>The order of validation and checkpoint\<close>






end
